theory Spec2Isabelle
  imports Main
begin

section \<open>Python strings\<close>

text \<open>
  Header names and values reach the script as Python \<open>str\<close> objects that the HTTP
  client decoded as ISO-8859-1, so every character is one byte and \<open>string\<close>
  (a list of 8-bit characters) holds them exactly.
\<close>

definition is_ascii_upper :: "char \<Rightarrow> bool" where
  "is_ascii_upper c = (let n = (of_char c :: nat) in 65 \<le> n \<and> n \<le> 90)"

definition is_ascii_lower :: "char \<Rightarrow> bool" where
  "is_ascii_lower c = (let n = (of_char c :: nat) in 97 \<le> n \<and> n \<le> 122)"

definition is_ascii_alpha :: "char \<Rightarrow> bool" where
  "is_ascii_alpha c = (is_ascii_upper c \<or> is_ascii_lower c)"

text \<open>
  \<open>str.lower()\<close> on one character below U+0100: the ASCII capitals and the
  Latin-1 capitals U+00C0..U+00DE (the multiplication sign U+00D7 apart) move up by 32,
  every other character stays.
\<close>

definition lower_char :: "char \<Rightarrow> char" where
  "lower_char c =
     (let n = (of_char c :: nat) in
      if (65 \<le> n \<and> n \<le> 90) \<or> (192 \<le> n \<and> n \<le> 222 \<and> n \<noteq> 215)
      then char_of (n + 32) else c)"

definition lower :: "string \<Rightarrow> string" where
  "lower s = map lower_char s"

text \<open>\<open>s.startswith(p)\<close> and the substring test \<open>sub in s\<close>.\<close>

fun startswith :: "string \<Rightarrow> string \<Rightarrow> bool" where
  "startswith s [] = True"
| "startswith [] (p # ps) = False"
| "startswith (c # cs) (p # ps) = (c = p \<and> startswith cs ps)"

fun contains :: "string \<Rightarrow> string \<Rightarrow> bool" where
  "contains [] sub = (sub = [])"
| "contains (c # cs) sub = (startswith (c # cs) sub \<or> contains cs sub)"

text \<open>\<open>str(n)\<close> for an integer: decimal digits, a minus sign when negative.\<close>

definition digit_char :: "nat \<Rightarrow> char" where
  "digit_char d = char_of (48 + d)"

function str_nat :: "nat \<Rightarrow> string" where
  "str_nat n = (if n < 10 then [digit_char n] else str_nat (n div 10) @ [digit_char (n mod 10)])"
  by pat_completeness auto
termination
  by (relation "measure (\<lambda>n. n)") auto

declare str_nat.simps [simp del]

definition str_int :: "int \<Rightarrow> string" where
  "str_int i = (if i < 0 then CHR ''-'' # str_nat (nat (- i)) else str_nat (nat i))"

section \<open>Configuration\<close>

definition NON_WWW_DOMAIN :: string where
  "NON_WWW_DOMAIN = ''kouidri.fr''"

definition WWW_DOMAIN :: string where
  "WWW_DOMAIN = ''www.'' @ NON_WWW_DOMAIN"

definition HTTP_WWW_URL :: string where
  "HTTP_WWW_URL = ''http://'' @ WWW_DOMAIN"

definition HTTPS_NON_WWW_URL :: string where
  "HTTPS_NON_WWW_URL = ''https://'' @ NON_WWW_DOMAIN"

definition HTTPS_WWW_URL :: string where
  "HTTPS_WWW_URL = ''https://'' @ WWW_DOMAIN"

section \<open>Errors\<close>

text \<open>
  What ends a check early: a failed \<open>assert\<close> with its message, a \<open>ValueError\<close>
  raised by \<open>urlparse\<close>, or an exception of the HTTP client (DNS, connection, TLS,
  timeout), which the checks do not catch.
\<close>

datatype error = AssertionError string | ValueError string | RequestException string

section \<open>The URL parser of the standard library\<close>

text \<open>
  The checks call \<open>urlparse\<close> of the standard library (CPython 3.12,
  \<open>Lib/urllib/parse.py\<close>) on the \<open>Location\<close> value. The functions below follow
  \<open>urlsplit\<close>, \<open>_splitnetloc\<close>, \<open>_splitparams\<close> and \<open>urlparse\<close> for a \<open>str\<close>
  argument with the default empty scheme and fragments allowed. Two library calls are
  not unfolded:
  \<^item> \<open>_check_bracketed_netloc\<close>, which validates an IPv6 or IPvFuture literal with the
    \<open>ipaddress\<close> module, is the parameter \<open>check_bracketed_netloc\<close>: \<open>None\<close> when it
    returns, \<open>Some msg\<close> when it raises \<open>ValueError(msg)\<close>;
  \<^item> \<open>_checknetloc\<close> raises only when NFKC normalisation of the netloc produces one of
    the characters \<open>/?#@:\<close>, which no character below U+0100 does, so it returns for
    every string here.
\<close>

text \<open>\<open>s.find(c)\<close>, \<open>s.find(c, start)\<close> and \<open>s.rfind(c)\<close>: an index, or -1.\<close>

definition find_from :: "string \<Rightarrow> char \<Rightarrow> nat \<Rightarrow> int" where
  "find_from s c start =
     (if c \<in> set (drop start s)
      then int (start + length (takeWhile (\<lambda>x. x \<noteq> c) (drop start s)))
      else - 1)"

definition find_str :: "string \<Rightarrow> char \<Rightarrow> int" where
  "find_str s c = find_from s c 0"

definition rfind :: "string \<Rightarrow> char \<Rightarrow> int" where
  "rfind s c =
     (if c \<in> set s
      then int (length s - 1 - length (takeWhile (\<lambda>x. x \<noteq> c) (rev s)))
      else - 1)"

text \<open>\<open>a, b = s.split(c, 1)\<close>, used where \<open>c in s\<close> holds.\<close>

definition split1 :: "string \<Rightarrow> char \<Rightarrow> string \<times> string" where
  "split1 s c = (takeWhile (\<lambda>x. x \<noteq> c) s, drop 1 (dropWhile (\<lambda>x. x \<noteq> c) s))"

definition scheme_chars :: string where
  "scheme_chars = ''abcdefghijklmnopqrstuvwxyzABCDEFGHIJKLMNOPQRSTUVWXYZ0123456789+-.''"

definition uses_params :: "string list" where
  "uses_params = ['''', ''ftp'', ''hdl'', ''prospero'', ''http'', ''imap'', ''https'',
     ''shttp'', ''rtsp'', ''rtspu'', ''sip'', ''sips'', ''mms'', ''sftp'', ''tel'']"

definition WHATWG_C0_CONTROL_OR_SPACE :: string where
  "WHATWG_C0_CONTROL_OR_SPACE = map char_of [0 ..< (33::nat)]"

definition UNSAFE_URL_BYTES_TO_REMOVE :: string where
  "UNSAFE_URL_BYTES_TO_REMOVE = [CHR 0x09, CHR 0x0D, CHR 0x0A]"

definition splitnetloc :: "string \<Rightarrow> nat \<Rightarrow> string \<times> string" where
  "splitnetloc url start =
     (let delim = fold (\<lambda>c delim. let wdelim = find_from url c start
                                   in if wdelim \<ge> 0 then min delim wdelim else delim)
                       ''/?#'' (int (length url))
      in (drop start (take (nat delim) url), drop (nat delim) url))"

text \<open>
  The result of \<open>urlsplit\<close> is the tuple (scheme, netloc, path, query, fragment).
\<close>

definition urlsplit ::
  "(string \<Rightarrow> string option) \<Rightarrow> string \<Rightarrow>
     error + (string \<times> string \<times> string \<times> string \<times> string)" where
  "urlsplit check_bracketed_netloc url0 =
     (let url1 = dropWhile (\<lambda>c. c \<in> set WHATWG_C0_CONTROL_OR_SPACE) url0;
          url2 = filter (\<lambda>c. c \<notin> set UNSAFE_URL_BYTES_TO_REMOVE) url1;
          i = find_str url2 CHR '':'';
          (scheme, url3) =
            (if i > 0 \<and> is_ascii_alpha (hd url2)
                \<and> list_all (\<lambda>c. c \<in> set scheme_chars) (take (nat i) url2)
             then (lower (take (nat i) url2), drop (nat i + 1) url2)
             else ('''', url2))
      in case (if take 2 url3 = ''//''
               then (let (netloc, url4) = splitnetloc url3 2
                     in if (CHR ''['' \<in> set netloc \<and> CHR '']'' \<notin> set netloc)
                           \<or> (CHR '']'' \<in> set netloc \<and> CHR ''['' \<notin> set netloc)
                        then Inl (ValueError ''Invalid IPv6 URL'')
                        else if CHR ''['' \<in> set netloc \<and> CHR '']'' \<in> set netloc
                        then (case check_bracketed_netloc netloc of
                                Some msg \<Rightarrow> Inl (ValueError msg)
                              | None \<Rightarrow> Inr (netloc, url4))
                        else Inr (netloc, url4))
               else Inr ('''', url3)) of
           Inl e \<Rightarrow> Inl e
         | Inr (netloc, url4) \<Rightarrow>
             (let (url5, fragment) =
                    (if CHR ''#'' \<in> set url4 then split1 url4 CHR ''#'' else (url4, ''''));
                  (url6, query) =
                    (if CHR ''?'' \<in> set url5 then split1 url5 CHR ''?'' else (url5, ''''))
              in Inr (scheme, netloc, url6, query, fragment)))"

text \<open>
  \<open>_splitparams\<close> is called only when \<open>;\<close> occurs in \<open>url\<close>, so the index found in
  its second branch is never -1.
\<close>

definition splitparams :: "string \<Rightarrow> string \<times> string" where
  "splitparams url =
     (if CHR ''/'' \<in> set url
      then (let i = find_from url CHR '';'' (nat (rfind url CHR ''/''))
            in if i < 0 then (url, '''') else (take (nat i) url, drop (nat i + 1) url))
      else (let i = find_str url CHR '';''
            in (take (nat i) url, drop (nat i + 1) url)))"

record parse_result =
  scheme :: string
  netloc :: string
  path :: string
  params :: string
  query :: string
  fragment :: string

definition urlparse :: "(string \<Rightarrow> string option) \<Rightarrow> string \<Rightarrow> error + parse_result" where
  "urlparse check_bracketed_netloc url =
     (case urlsplit check_bracketed_netloc url of
        Inl e \<Rightarrow> Inl e
      | Inr (scheme', netloc', url1, query', fragment') \<Rightarrow>
          (let (url2, params') =
                 (if scheme' \<in> set uses_params \<and> CHR '';'' \<in> set url1
                  then splitparams url1 else (url1, ''''))
           in Inr \<lparr>scheme = scheme', netloc = netloc', path = url2, params = params',
                    query = query', fragment = fragment'\<rparr>))"

section \<open>Responses, sessions and the world outside the script\<close>

text \<open>
  Of a \<open>requests.Response\<close> the checks read \<open>status_code\<close> and \<open>headers\<close>.
  \<open>headers\<close> is a case-insensitive dictionary: it keeps each value under the
  lowercased header name, and \<open>headers.get(name)\<close> looks \<open>name.lower()\<close> up,
  giving \<open>None\<close> for a header that is absent.
\<close>

record response =
  status_code :: int
  headers :: "string \<rightharpoonup> string"

definition headers_get :: "response \<Rightarrow> string \<Rightarrow> string option" where
  "headers_get r name = headers r (lower name)"

text \<open>
  A \<open>requests.Session\<close> object: its identity (the objects are numbered in the order
  of their creation) and the one attribute the script sets.
\<close>

record session =
  ident :: nat
  verify :: bool

text \<open>
  Everything the script calls and does not define is the environment:
  \<^item> \<open>get\<close> is \<open>Session.get(url, allow_redirects=...)\<close> of the HTTP client together
    with the network and the server behind it. It may depend on the session, the URL,
    the redirect flag and the state \<open>'w\<close> of that outside world (connections, cookies,
    the server), which it may change; it returns the response, or \<open>Inl msg\<close> when the
    client raises a transport exception;
  \<^item> \<open>check_bracketed\<close> is the validation of a bracketed host inside \<open>urlparse\<close>.
\<close>

record 'w env =
  get :: "session \<Rightarrow> string \<Rightarrow> bool \<Rightarrow> 'w \<Rightarrow> (string + response) \<times> 'w"
  check_bracketed :: "string \<Rightarrow> string option"

text \<open>
  The checks run under pytest, which rewrites every \<open>assert\<close> of the module: when the
  condition is false, the failure is reported with the assert's own message followed by
  the comparison that failed, with the values of its operands (\<open>assert None is not None\<close>,
  \<open>assert 302 == 301\<close>). The model keeps the two apart: the message is the argument of
  \<open>AssertionError\<close>, and the comparison, as left operand, operator and right operand, is
  appended to the component \<open>introspected\<close> of the state.
\<close>

datatype pyvalue = PyNone | PyInt int | PyStr string

text \<open>
  The state a run threads: how many session objects exist, what was printed, the
  comparisons reported for failed asserts, and the outside world.
\<close>

record 'w state =
  sessions_created :: nat
  stdout :: "string list"
  introspected :: "(pyvalue \<times> string \<times> pyvalue) list"
  world :: 'w

definition session_get ::
  "'w env \<Rightarrow> session \<Rightarrow> string \<Rightarrow> bool \<Rightarrow> 'w state \<Rightarrow> (error + response) \<times> 'w state" where
  "session_get env session url allow_redirects st =
     (case get env session url allow_redirects (world st) of
        (Inl msg, w) \<Rightarrow> (Inl (RequestException msg), st\<lparr>world := w\<rparr>)
      | (Inr r, w) \<Rightarrow> (Inr r, st\<lparr>world := w\<rparr>))"

definition print :: "string \<Rightarrow> 'w state \<Rightarrow> 'w state" where
  "print line st = st\<lparr>stdout := stdout st @ [line]\<rparr>"

definition explain :: "pyvalue \<Rightarrow> string \<Rightarrow> pyvalue \<Rightarrow> 'w state \<Rightarrow> 'w state" where
  "explain left operator right st =
     st\<lparr>introspected := introspected st @ [(left, operator, right)]\<rparr>"

section \<open>The fixture\<close>

text \<open>
  \<open>requests.Session()\<close> makes a new object; the library's default for \<open>verify\<close> is
  \<open>True\<close>. The fixture then assigns \<open>session.verify = True\<close> and returns the object.
\<close>

definition Session :: "'w state \<Rightarrow> session \<times> 'w state" where
  "Session st =
     (\<lparr>ident = sessions_created st, verify = True\<rparr>,
      st\<lparr>sessions_created := Suc (sessions_created st)\<rparr>)"

definition http_session :: "'w state \<Rightarrow> session \<times> 'w state" where
  "http_session st =
     (let (session, st1) = Session st;
          session = session\<lparr>verify := True\<rparr>
      in (session, st1))"

section \<open>The checks\<close>

text \<open>
  A check returns \<open>Inr ()\<close> when it passes and \<open>Inl e\<close> when it stops at the exception
  \<open>e\<close>, together with the state it leaves.
\<close>

type_synonym 'w test = "'w env \<Rightarrow> session \<Rightarrow> 'w state \<Rightarrow> (error + unit) \<times> 'w state"

definition test_liveness :: "'w test" where
  "test_liveness env session st =
     (case session_get env session HTTPS_WWW_URL True st of
        (Inl e, st1) \<Rightarrow> (Inl e, st1)
      | (Inr https_response, st1) \<Rightarrow>
          if status_code https_response \<noteq> 200
          then (Inl (AssertionError (''Unexpected response code: ''
                  @ str_int (status_code https_response) @ '' (expected 200)'')),
                explain (PyInt (status_code https_response)) ''=='' (PyInt 200) st1)
          else (Inr (), st1))"

definition test_http_to_https_redirect :: "'w test" where
  "test_http_to_https_redirect env session st =
     (case session_get env session HTTP_WWW_URL False st of
        (Inl e, st1) \<Rightarrow> (Inl e, st1)
      | (Inr response, st1) \<Rightarrow>
          if status_code response \<noteq> 301
          then (Inl (AssertionError (''Unexpected code: '' @ str_int (status_code response)
                  @ '' (strictly expected 301 for a permanent redirect)'')),
                explain (PyInt (status_code response)) ''=='' (PyInt 301) st1)
          else case headers_get response ''Location'' of
            None \<Rightarrow> (Inl (AssertionError ''Location header missing''),
                     explain PyNone ''is not'' PyNone st1)
          | Some location \<Rightarrow>
              (case urlparse (check_bracketed env) location of
                 Inl e \<Rightarrow> (Inl e, st1)
               | Inr parsed_location \<Rightarrow>
                   if scheme parsed_location \<noteq> ''https''
                   then (Inl (AssertionError (''Redirect to '' @ scheme parsed_location
                           @ '', not HTTPS'')),
                         explain (PyStr (scheme parsed_location)) ''=='' (PyStr ''https'') st1)
                   else if netloc parsed_location \<noteq> WWW_DOMAIN
                   then (Inl (AssertionError (''Domain changed: '' @ netloc parsed_location
                           @ '' (expected '' @ WWW_DOMAIN @ '' to preserve 'www')'')),
                         explain (PyStr (netloc parsed_location)) ''=='' (PyStr WWW_DOMAIN) st1)
                   else if path parsed_location \<noteq> ''/''
                   then (Inl (AssertionError (''Path changed: '' @ path parsed_location
                           @ '' (expected '/' for root)'')),
                         explain (PyStr (path parsed_location)) ''=='' (PyStr ''/'') st1)
                   else (Inr (), print (''HTTP->HTTPS redirect successful: '' @ HTTP_WWW_URL
                           @ '' -> '' @ location) st1)))"

definition test_non_www_to_www_redirect :: "'w test" where
  "test_non_www_to_www_redirect env session st =
     (case session_get env session HTTPS_NON_WWW_URL False st of
        (Inl e, st1) \<Rightarrow> (Inl e, st1)
      | (Inr response, st1) \<Rightarrow>
          if status_code response \<noteq> 301
          then (Inl (AssertionError (''Unexpected code: '' @ str_int (status_code response)
                  @ '' (strictly expected 301 for a permanent redirect)'')),
                explain (PyInt (status_code response)) ''=='' (PyInt 301) st1)
          else case headers_get response ''Location'' of
            None \<Rightarrow> (Inl (AssertionError ''Location header missing''),
                     explain PyNone ''is not'' PyNone st1)
          | Some location \<Rightarrow>
              (case urlparse (check_bracketed env) location of
                 Inl e \<Rightarrow> (Inl e, st1)
               | Inr parsed_location \<Rightarrow>
                   if scheme parsed_location \<noteq> ''https''
                   then (Inl (AssertionError (''Redirect to '' @ scheme parsed_location
                           @ '', not HTTPS'')),
                         explain (PyStr (scheme parsed_location)) ''=='' (PyStr ''https'') st1)
                   else if netloc parsed_location \<noteq> WWW_DOMAIN
                   then (Inl (AssertionError (''Domain unchanged or incorrect: ''
                           @ netloc parsed_location
                           @ '' (expected '' @ WWW_DOMAIN @ '' with 'www' added)'')),
                         explain (PyStr (netloc parsed_location)) ''=='' (PyStr WWW_DOMAIN) st1)
                   else if path parsed_location \<noteq> ''/''
                   then (Inl (AssertionError (''Path changed: '' @ path parsed_location
                           @ '' (expected '/' for root)'')),
                         explain (PyStr (path parsed_location)) ''=='' (PyStr ''/'') st1)
                   else (Inr (), print (''Without www -> with www redirect successful: ''
                           @ HTTPS_NON_WWW_URL @ '' -> '' @ location) st1)))"

definition test_hsts_header :: "'w test" where
  "test_hsts_header env session st =
     (case session_get env session HTTP_WWW_URL False st of
        (Inl e, st1) \<Rightarrow> (Inl e, st1)
      | (Inr http_response, st1) \<Rightarrow>
          (case headers_get http_response ''Strict-Transport-Security'' of
             Some hsts_http \<Rightarrow>
               (Inl (AssertionError (''HSTS present on HTTP: '' @ hsts_http
                  @ '' (should be absent to avoid leaks)'')),
                explain (PyStr hsts_http) ''is'' PyNone st1)
           | None \<Rightarrow>
               (case session_get env session HTTPS_WWW_URL True st1 of
                  (Inl e, st2) \<Rightarrow> (Inl e, st2)
                | (Inr https_response, st2) \<Rightarrow>
                    if status_code https_response \<noteq> 200
                    then (Inl (AssertionError (''Unexpected HTTPS status: ''
                            @ str_int (status_code https_response) @ '' (expected 200)'')),
                          explain (PyInt (status_code https_response)) ''=='' (PyInt 200) st2)
                    else case headers_get https_response ''Strict-Transport-Security'' of
                      None \<Rightarrow> (Inl (AssertionError ''HSTS header missing on HTTPS''),
                               explain PyNone ''is not'' PyNone st2)
                    | Some hsts_https \<Rightarrow>
                        if \<not> contains (lower hsts_https) ''max-age''
                        then (Inl (AssertionError (''Invalid HSTS value on HTTPS: ''
                                @ hsts_https @ '' (should include 'max-age')'')),
                              explain (PyStr ''max-age'') ''in'' (PyStr (lower hsts_https)) st2)
                        else (Inr (), print (''HSTS verified: Absent on HTTP, present on HTTPS with ''
                                @ [CHR 0x27] @ hsts_https @ [CHR 0x27]) st2))))"

section \<open>Running the checks\<close>

text \<open>
  The fixture is declared with a bare \<open>@pytest.fixture\<close>, that is with function scope:
  the test runner calls it anew for every test that takes \<open>http_session\<close> as an argument
  and hands the result to that test. A failing test does not stop the run.
\<close>

definition run_test :: "'w env \<Rightarrow> 'w test \<Rightarrow> 'w state \<Rightarrow> (error + unit) \<times> 'w state" where
  "run_test env test st = (let (session, st1) = http_session st in test env session st1)"

fun run_tests :: "'w env \<Rightarrow> 'w test list \<Rightarrow> 'w state \<Rightarrow> (error + unit) list \<times> 'w state" where
  "run_tests env [] st = ([], st)"
| "run_tests env (test # tests) st =
     (let (r, st1) = run_test env test st;
          (rs, st2) = run_tests env tests st1
      in (r # rs, st2))"

definition all_tests :: "'w test list" where
  "all_tests = [test_liveness, test_http_to_https_redirect,
                test_non_www_to_www_redirect, test_hsts_header]"

section \<open>Example servers\<close>

text \<open>
  A server that answers the three URLs of the configuration with fixed results, whatever
  the redirect flag, and records in the world which session made each request. It
  accepts every bracketed host.
\<close>

definition server ::
  "(string + response) \<Rightarrow> (string + response) \<Rightarrow> (string + response) \<Rightarrow> nat list env" where
  "server http_www https_bare https_www =
     \<lparr>get = (\<lambda>session url allow_redirects w.
              (if url = HTTP_WWW_URL then http_www
               else if url = HTTPS_NON_WWW_URL then https_bare
               else https_www, w @ [ident session])),
      check_bracketed = (\<lambda>netloc. None)\<rparr>"

definition st0 :: "nat list state" where
  "st0 = \<lparr>sessions_created = 0, stdout = [], introspected = [], world = []\<rparr>"

definition s0 :: session where
  "s0 = \<lparr>ident = 0, verify = True\<rparr>"

definition status_only :: "int \<Rightarrow> response" where
  "status_only code = \<lparr>status_code = code, headers = Map.empty\<rparr>"

definition redirect :: "int \<Rightarrow> string \<Rightarrow> response" where
  "redirect code location = \<lparr>status_code = code, headers = [''location'' \<mapsto> location]\<rparr>"

definition with_hsts :: "int \<Rightarrow> string \<Rightarrow> response" where
  "with_hsts code v = \<lparr>status_code = code, headers = [''strict-transport-security'' \<mapsto> v]\<rparr>"

text \<open>The server of the spec's literal scenario.\<close>

definition kouidri :: "nat list env" where
  "kouidri = server (Inr (redirect 301 ''https://www.kouidri.fr/''))
                    (Inr (redirect 301 ''https://www.kouidri.fr/''))
                    (Inr (with_hsts 200 ''max-age=31536000''))"


section \<open>Observing a run\<close>

text \<open>The four checks by name, in the order of the file.\<close>

datatype check = Liveness | Http_to_https | Non_www_to_www | Hsts

fun check_test :: "check \<Rightarrow> 'w test" where
  "check_test Liveness = test_liveness"
| "check_test Http_to_https = test_http_to_https_redirect"
| "check_test Non_www_to_www = test_non_www_to_www_redirect"
| "check_test Hsts = test_hsts_header"

definition all_checks :: "check list" where
  "all_checks = [Liveness, Http_to_https, Non_www_to_www, Hsts]"

text \<open>
  An exchange is one call of \<open>get\<close>: the session that made it, the URL, the redirect
  flag and the result. \<open>recording env\<close> behaves as \<open>env\<close> and appends every exchange
  to a log kept beside the world, so that after a run the log holds the requests made,
  in order, with the session used for each and the response received.
\<close>

type_synonym exchange = "session \<times> string \<times> bool \<times> (string + response)"

definition request :: "exchange \<Rightarrow> session \<times> string \<times> bool" where
  "request e = (case e of (session, url, allow_redirects, x) \<Rightarrow> (session, url, allow_redirects))"

definition result :: "exchange \<Rightarrow> string + response" where
  "result e = (case e of (session, url, allow_redirects, x) \<Rightarrow> x)"

definition with_world :: "'a state \<Rightarrow> 'b \<Rightarrow> 'b state" where
  "with_world st w =
     \<lparr>sessions_created = sessions_created st, stdout = stdout st,
      introspected = introspected st, world = w\<rparr>"

definition recording :: "'w env \<Rightarrow> ('w \<times> exchange list) env" where
  "recording env =
     \<lparr>get = (\<lambda>session url allow_redirects (w, log).
               case get env session url allow_redirects w of
                 (x, w') \<Rightarrow> (x, (w', log @ [(session, url, allow_redirects, x)]))),
      check_bracketed = check_bracketed env\<rparr>"

definition exchanges :: "'w env \<Rightarrow> check list \<Rightarrow> 'w state \<Rightarrow> exchange list" where
  "exchanges env checks st =
     snd (world (snd (run_tests (recording env) (map check_test checks)
                        (with_world st (world st, [])))))"

text \<open>
  \<open>replay\<close> is a transport with no server behind it: its world is a list of results,
  and every request, whoever makes it and whatever it asks for, is answered with the next
  one.
\<close>

definition replay :: "(string \<Rightarrow> string option) \<Rightarrow> (string + response) list env" where
  "replay check =
     \<lparr>get = (\<lambda>session url allow_redirects script.
               case script of
                 [] \<Rightarrow> (Inl ''no response left'', [])
               | x # rest \<Rightarrow> (x, rest)),
      check_bracketed = check\<rparr>"

text \<open>
  A server that remembers, for every session, the URLs the session has requested. It
  serves a session its first request, and a request of \<open>https://www.<domain>\<close> that
  follows a single one of \<open>http://www.<domain>\<close>; every other request of a session
  that has asked before is answered with status 429.
\<close>

definition served :: "string list \<Rightarrow> string \<Rightarrow> string + response" where
  "served seen url =
     (if seen = [] \<or> (seen = [HTTP_WWW_URL] \<and> url = HTTPS_WWW_URL)
      then (if url = HTTPS_WWW_URL then Inr (with_hsts 200 ''max-age=31536000'')
            else Inr (redirect 301 ''https://www.kouidri.fr/''))
      else Inr (status_only 429))"

definition limited :: "(nat \<Rightarrow> string list) env" where
  "limited =
     \<lparr>get = (\<lambda>session url allow_redirects seen.
               (served (seen (ident session)) url,
                seen(ident session := seen (ident session) @ [url]))),
      check_bracketed = (\<lambda>netloc. None)\<rparr>"

definition no_requests_yet :: "(nat \<Rightarrow> string list) state" where
  "no_requests_yet =
     \<lparr>sessions_created = 0, stdout = [], introspected = [], world = (\<lambda>i. [])\<rparr>"

section \<open>Requests\<close>

lemma session_get_fst:
  "fst (session_get env session url a st) =
     (case fst (get env session url a (world st)) of
        Inl msg \<Rightarrow> Inl (RequestException msg) | Inr r \<Rightarrow> Inr r)"
  by (simp add: session_get_def split: prod.splits sum.splits)

lemma session_get_snd:
  "snd (session_get env session url a st) =
     st\<lparr>world := snd (get env session url a (world st))\<rparr>"
  by (simp add: session_get_def split: prod.splits sum.splits)

lemma server_get:
  "get (server a b c) session url allow w =
     (if url = HTTP_WWW_URL then a else if url = HTTPS_NON_WWW_URL then b else c,
      w @ [ident session])"
  by (simp add: server_def)

lemma urls_distinct:
  "HTTPS_NON_WWW_URL \<noteq> HTTP_WWW_URL" "HTTPS_WWW_URL \<noteq> HTTP_WWW_URL"
  "HTTPS_WWW_URL \<noteq> HTTPS_NON_WWW_URL"
  by (simp_all add: HTTPS_WWW_URL_def HTTP_WWW_URL_def HTTPS_NON_WWW_URL_def
        WWW_DOMAIN_def NON_WWW_DOMAIN_def)

section \<open>Evaluating the examples\<close>

lemma lower_Location: "lower ''Location'' = ''location''"
  by code_simp

lemma lower_STS: "lower ''Strict-Transport-Security'' = ''strict-transport-security''"
  by code_simp

lemma headers_get_redirect:
  "headers_get (redirect code location) ''Location'' = Some location"
  "headers_get (redirect code location) ''Strict-Transport-Security'' = None"
  by (simp_all add: headers_get_def redirect_def lower_Location lower_STS)

lemma headers_get_status_only: "headers_get (status_only code) name = None"
  by (simp add: headers_get_def status_only_def)

lemma headers_get_with_hsts:
  "headers_get (with_hsts code v) ''Strict-Transport-Security'' = Some v"
  "headers_get (with_hsts code v) ''Location'' = None"
  by (simp_all add: headers_get_def with_hsts_def lower_Location lower_STS)

lemma status_code_examples:
  "status_code (redirect code location) = code"
  "status_code (status_only code) = code"
  "status_code (with_hsts code v) = code"
  by (simp_all add: redirect_def status_only_def with_hsts_def)

lemma check_bracketed_server: "check_bracketed (server a b c) = (\<lambda>netloc. None)"
  by (simp add: server_def)

lemma urlparse_www_root:
  "urlparse c ''https://www.kouidri.fr/'' =
     Inr \<lparr>scheme = ''https'', netloc = ''www.kouidri.fr'', path = ''/'', params = '''',
          query = '''', fragment = ''''\<rparr>"
  by code_simp

lemma urlparse_bare_root:
  "urlparse c ''https://kouidri.fr/'' =
     Inr \<lparr>scheme = ''https'', netloc = ''kouidri.fr'', path = ''/'', params = '''',
          query = '''', fragment = ''''\<rparr>"
  by code_simp

lemma str_int_examples:
  "str_int 302 = ''302''" "str_int 307 = ''307''" "str_int 308 = ''308''"
  "str_int 200 = ''200''" "str_int 503 = ''503''" "str_int 404 = ''404''"
  by code_simp+

lemma contains_max_age_examples:
  "contains (lower ''max-age=31536000; includeSubDomains'') ''max-age''"
  "contains (lower ''Max-Age=31536000'') ''max-age''"
  "\<not> contains (lower ''includeSubDomains; preload'') ''max-age''"
  by code_simp+








section \<open>The liveness check\<close>

text \<open>
  C5: the liveness check requests \<open>https://www.<domain>\<close> with redirects followed; it
  passes if and only if that request returns a response whose status code is 200, and
  for a response with any other status code it fails with a message that reports the
  status code received.
\<close>

theorem test_liveness_passes_iff_200:
  "HTTPS_WWW_URL = ''https://www.'' @ NON_WWW_DOMAIN \<and>
   (fst (test_liveness env session st) = Inr () \<longleftrightarrow>
      (\<exists>r. fst (get env session HTTPS_WWW_URL True (world st)) = Inr r
           \<and> status_code r = 200)) \<and>
   (\<forall>r. fst (get env session HTTPS_WWW_URL True (world st)) = Inr r
        \<and> status_code r \<noteq> 200 \<longrightarrow>
      fst (test_liveness env session st) =
        Inl (AssertionError (''Unexpected response code: '' @ str_int (status_code r)
               @ '' (expected 200)'')))"
  by (auto simp: test_liveness_def session_get_def HTTPS_WWW_URL_def WWW_DOMAIN_def
           split: prod.splits sum.splits if_splits)

theorem test_liveness_passes_iff_200_witness:
  "fst (test_liveness (server (Inl ''down'') (Inl ''down'') (Inr (status_only 200))) s0 st0)
     = Inr ()
   \<and> fst (test_liveness (server (Inl ''down'') (Inl ''down'') (Inr (status_only 503))) s0 st0)
     = Inl (AssertionError ''Unexpected response code: 503 (expected 200)'')"
proof -
  let ?up = "server (Inl ''down'') (Inl ''down'') (Inr (status_only 200))"
  let ?err = "server (Inl ''down'') (Inl ''down'') (Inr (status_only 503))"
  have up: "fst (get ?up s0 HTTPS_WWW_URL True (world st0)) = Inr (status_only 200)"
    by (simp add: server_get urls_distinct)
  have err: "fst (get ?err s0 HTTPS_WWW_URL True (world st0)) = Inr (status_only 503)"
    by (simp add: server_get urls_distinct)
  have shown: "str_int 503 = ''503''"
    by code_simp
  show ?thesis
    using test_liveness_passes_iff_200 [of ?up s0 st0]
          test_liveness_passes_iff_200 [of ?err s0 st0] up err shown
    by (simp add: status_only_def)
qed

section \<open>The redirect checks\<close>

text \<open>
  C1: the HTTP-to-HTTPS redirect check requests \<open>http://www.<domain>\<close> without
  following redirects, and it passes exactly when that request returns a response with
  status 301 and a \<open>Location\<close> header whose value \<open>urlparse\<close> splits into scheme
  \<open>https\<close>, network location \<open>www.<domain>\<close> and path \<open>/\<close>. Whenever one of these
  conditions is violated the check does not pass.
\<close>

theorem http_to_https_redirect_passes_iff:
  "HTTP_WWW_URL = ''http://www.'' @ NON_WWW_DOMAIN \<and>
   (fst (test_http_to_https_redirect env session st) = Inr () \<longleftrightarrow>
      (\<exists>r location p.
          fst (get env session HTTP_WWW_URL False (world st)) = Inr r
        \<and> status_code r = 301
        \<and> headers_get r ''Location'' = Some location
        \<and> urlparse (check_bracketed env) location = Inr p
        \<and> scheme p = ''https''
        \<and> netloc p = ''www.'' @ NON_WWW_DOMAIN
        \<and> path p = ''/''))"
  by (auto simp: test_http_to_https_redirect_def session_get_def HTTP_WWW_URL_def WWW_DOMAIN_def
           split: prod.splits sum.splits option.splits if_splits)

theorem http_to_https_redirect_passes_iff_witness:
  "fst (test_http_to_https_redirect
          (server (Inr (redirect 301 ''https://www.kouidri.fr/'')) (Inl ''down'') (Inl ''down''))
          s0 st0) = Inr ()
   \<and> fst (test_http_to_https_redirect
          (server (Inr (redirect 301 ''https://kouidri.fr/'')) (Inl ''down'') (Inl ''down''))
          s0 st0) \<noteq> Inr ()
   \<and> fst (test_http_to_https_redirect
          (server (Inr (status_only 301)) (Inl ''down'') (Inl ''down''))
          s0 st0) \<noteq> Inr ()"
proof -
  let ?good = "server (Inr (redirect 301 ''https://www.kouidri.fr/'')) (Inl ''down'') (Inl ''down'')"
  let ?stripped = "server (Inr (redirect 301 ''https://kouidri.fr/'')) (Inl ''down'') (Inl ''down'')"
  let ?bare = "server (Inr (status_only 301)) (Inl ''down'') (Inl ''down'')"
  have "fst (test_http_to_https_redirect ?good s0 st0) = Inr ()"
    using http_to_https_redirect_passes_iff [of ?good s0 st0]
    by (simp add: server_get check_bracketed_server status_code_examples
          headers_get_redirect urlparse_www_root NON_WWW_DOMAIN_def)
  moreover have "fst (test_http_to_https_redirect ?stripped s0 st0) \<noteq> Inr ()"
    using http_to_https_redirect_passes_iff [of ?stripped s0 st0]
    by (simp add: server_get check_bracketed_server status_code_examples
          headers_get_redirect urlparse_bare_root NON_WWW_DOMAIN_def)
  moreover have "fst (test_http_to_https_redirect ?bare s0 st0) \<noteq> Inr ()"
    using http_to_https_redirect_passes_iff [of ?bare s0 st0]
    by (simp add: server_get headers_get_status_only)
  ultimately show ?thesis by simp
qed

text \<open>
  C2: the non-www-to-www redirect check requests \<open>https://<domain>\<close> (the bare domain)
  without following redirects, and it passes exactly when that request returns a response
  with status 301 and a \<open>Location\<close> header whose value \<open>urlparse\<close> splits into scheme
  \<open>https\<close>, network location \<open>www.<domain>\<close> and path \<open>/\<close>. In particular a
  \<open>Location\<close> whose network location is the bare domain makes the check fail.
\<close>

theorem non_www_to_www_redirect_passes_iff:
  "HTTPS_NON_WWW_URL = ''https://'' @ NON_WWW_DOMAIN \<and>
   (fst (test_non_www_to_www_redirect env session st) = Inr () \<longleftrightarrow>
      (\<exists>r location p.
          fst (get env session HTTPS_NON_WWW_URL False (world st)) = Inr r
        \<and> status_code r = 301
        \<and> headers_get r ''Location'' = Some location
        \<and> urlparse (check_bracketed env) location = Inr p
        \<and> scheme p = ''https''
        \<and> netloc p = ''www.'' @ NON_WWW_DOMAIN
        \<and> path p = ''/'')) \<and>
   (\<forall>r location p.
          fst (get env session HTTPS_NON_WWW_URL False (world st)) = Inr r
        \<and> headers_get r ''Location'' = Some location
        \<and> urlparse (check_bracketed env) location = Inr p
        \<and> netloc p = NON_WWW_DOMAIN
      \<longrightarrow> fst (test_non_www_to_www_redirect env session st) \<noteq> Inr ())"
  by (auto simp: test_non_www_to_www_redirect_def session_get_def HTTPS_NON_WWW_URL_def
                 WWW_DOMAIN_def
           split: prod.splits sum.splits option.splits if_splits)

theorem non_www_to_www_redirect_passes_iff_witness:
  "fst (test_non_www_to_www_redirect
          (server (Inl ''down'') (Inr (redirect 301 ''https://www.kouidri.fr/'')) (Inl ''down''))
          s0 st0) = Inr ()
   \<and> fst (test_non_www_to_www_redirect
          (server (Inl ''down'') (Inr (redirect 301 ''https://kouidri.fr/'')) (Inl ''down''))
          s0 st0) \<noteq> Inr ()"
proof -
  let ?good = "server (Inl ''down'') (Inr (redirect 301 ''https://www.kouidri.fr/'')) (Inl ''down'')"
  let ?same = "server (Inl ''down'') (Inr (redirect 301 ''https://kouidri.fr/'')) (Inl ''down'')"
  have "fst (test_non_www_to_www_redirect ?good s0 st0) = Inr ()"
    using non_www_to_www_redirect_passes_iff [of ?good s0 st0]
    by (simp add: server_get urls_distinct check_bracketed_server status_code_examples
          headers_get_redirect urlparse_www_root NON_WWW_DOMAIN_def)
  moreover have "fst (test_non_www_to_www_redirect ?same s0 st0) \<noteq> Inr ()"
  proof -
    have "fst (get ?same s0 HTTPS_NON_WWW_URL False (world st0))
            = Inr (redirect 301 ''https://kouidri.fr/'')
        \<and> headers_get (redirect 301 ''https://kouidri.fr/'') ''Location''
            = Some ''https://kouidri.fr/''
        \<and> urlparse (check_bracketed ?same) ''https://kouidri.fr/''
            = Inr \<lparr>scheme = ''https'', netloc = ''kouidri.fr'', path = ''/'', params = '''',
                   query = '''', fragment = ''''\<rparr>
        \<and> netloc \<lparr>scheme = ''https'', netloc = ''kouidri.fr'', path = ''/'', params = '''',
                   query = '''', fragment = ''''\<rparr> = NON_WWW_DOMAIN"
      by (simp add: server_get urls_distinct headers_get_redirect urlparse_bare_root
            NON_WWW_DOMAIN_def)
    with non_www_to_www_redirect_passes_iff [of ?same s0 st0] show ?thesis
      by blast
  qed
  ultimately show ?thesis by simp
qed

text \<open>
  C4: both redirect checks compare the status code with 301 for equality. A response
  with any other status code, the redirects 302, 307 and 308 among them, fails the check
  at the status assertion, whatever its headers.
\<close>

theorem redirect_status_must_be_301:
  "(\<forall>r. fst (get env session HTTP_WWW_URL False (world st)) = Inr r \<and> status_code r \<noteq> 301
      \<longrightarrow> fst (test_http_to_https_redirect env session st) =
            Inl (AssertionError (''Unexpected code: '' @ str_int (status_code r)
                   @ '' (strictly expected 301 for a permanent redirect)''))) \<and>
   (\<forall>r. fst (get env session HTTPS_NON_WWW_URL False (world st)) = Inr r \<and> status_code r \<noteq> 301
      \<longrightarrow> fst (test_non_www_to_www_redirect env session st) =
            Inl (AssertionError (''Unexpected code: '' @ str_int (status_code r)
                   @ '' (strictly expected 301 for a permanent redirect)'')))"
  by (auto simp: test_http_to_https_redirect_def test_non_www_to_www_redirect_def session_get_def
           split: prod.splits sum.splits)

theorem redirect_status_must_be_301_witness:
  "fst (test_http_to_https_redirect
          (server (Inr (redirect 302 ''https://www.kouidri.fr/'')) (Inl ''down'') (Inl ''down''))
          s0 st0)
     = Inl (AssertionError
              ''Unexpected code: 302 (strictly expected 301 for a permanent redirect)'')
   \<and> fst (test_non_www_to_www_redirect
          (server (Inl ''down'') (Inr (redirect 307 ''https://www.kouidri.fr/'')) (Inl ''down''))
          s0 st0)
     = Inl (AssertionError
              ''Unexpected code: 307 (strictly expected 301 for a permanent redirect)'')
   \<and> fst (test_non_www_to_www_redirect
          (server (Inl ''down'') (Inr (redirect 308 ''https://www.kouidri.fr/'')) (Inl ''down''))
          s0 st0)
     = Inl (AssertionError
              ''Unexpected code: 308 (strictly expected 301 for a permanent redirect)'')"
proof -
  let ?found = "server (Inr (redirect 302 ''https://www.kouidri.fr/'')) (Inl ''down'') (Inl ''down'')"
  let ?temporary = "server (Inl ''down'') (Inr (redirect 307 ''https://www.kouidri.fr/'')) (Inl ''down'')"
  let ?permanent = "server (Inl ''down'') (Inr (redirect 308 ''https://www.kouidri.fr/'')) (Inl ''down'')"
  show ?thesis
    using redirect_status_must_be_301 [of ?found s0 st0]
          redirect_status_must_be_301 [of ?temporary s0 st0]
          redirect_status_must_be_301 [of ?permanent s0 st0]
    by (simp add: server_get urls_distinct status_code_examples str_int_examples)
qed

section \<open>The HSTS check\<close>

lemma test_hsts_header_passes_iff:
  "fst (test_hsts_header env session st) = Inr () \<longleftrightarrow>
     (\<exists>r1 r2 v.
         fst (get env session HTTP_WWW_URL False (world st)) = Inr r1
       \<and> headers_get r1 ''Strict-Transport-Security'' = None
       \<and> fst (get env session HTTPS_WWW_URL True
                (snd (get env session HTTP_WWW_URL False (world st)))) = Inr r2
       \<and> status_code r2 = 200
       \<and> headers_get r2 ''Strict-Transport-Security'' = Some v
       \<and> contains (lower v) ''max-age'')"
  by (auto simp: test_hsts_header_def session_get_def
           split: prod.splits sum.splits option.splits if_splits)

text \<open>
  C3: the HSTS check fails whenever the response to the request of
  \<open>http://www.<domain>\<close>, redirects not followed, carries a
  \<open>Strict-Transport-Security\<close> header; it fails whenever the response to the request
  of \<open>https://www.<domain>\<close>, redirects followed, lacks that header or carries a value
  that, lowercased, does not contain \<open>max-age\<close>; and it passes when the first response
  lacks the header and the second has status 200 and the header with \<open>max-age\<close> in any
  letter case.
\<close>

theorem test_hsts_header_verdict:
  "(\<forall>r1 v. fst (get env session HTTP_WWW_URL False (world st)) = Inr r1
         \<and> headers_get r1 ''Strict-Transport-Security'' = Some v
      \<longrightarrow> fst (test_hsts_header env session st) =
            Inl (AssertionError (''HSTS present on HTTP: '' @ v
                   @ '' (should be absent to avoid leaks)''))) \<and>
   (\<forall>r2. fst (get env session HTTPS_WWW_URL True
               (snd (get env session HTTP_WWW_URL False (world st)))) = Inr r2
         \<and> (headers_get r2 ''Strict-Transport-Security'' = None
            \<or> (\<exists>v. headers_get r2 ''Strict-Transport-Security'' = Some v
                   \<and> \<not> contains (lower v) ''max-age''))
      \<longrightarrow> fst (test_hsts_header env session st) \<noteq> Inr ()) \<and>
   (\<forall>r1 r2 v.
         fst (get env session HTTP_WWW_URL False (world st)) = Inr r1
       \<and> headers_get r1 ''Strict-Transport-Security'' = None
       \<and> fst (get env session HTTPS_WWW_URL True
                (snd (get env session HTTP_WWW_URL False (world st)))) = Inr r2
       \<and> status_code r2 = 200
       \<and> headers_get r2 ''Strict-Transport-Security'' = Some v
       \<and> contains (lower v) ''max-age''
      \<longrightarrow> fst (test_hsts_header env session st) = Inr ())"
proof (intro conjI allI impI)
  fix r1 v
  assume "fst (get env session HTTP_WWW_URL False (world st)) = Inr r1
        \<and> headers_get r1 ''Strict-Transport-Security'' = Some v"
  then show "fst (test_hsts_header env session st) =
            Inl (AssertionError (''HSTS present on HTTP: '' @ v
                   @ '' (should be absent to avoid leaks)''))"
    by (auto simp: test_hsts_header_def session_get_def split: prod.splits sum.splits)
next
  fix r2
  assume "fst (get env session HTTPS_WWW_URL True
               (snd (get env session HTTP_WWW_URL False (world st)))) = Inr r2
         \<and> (headers_get r2 ''Strict-Transport-Security'' = None
            \<or> (\<exists>v. headers_get r2 ''Strict-Transport-Security'' = Some v
                   \<and> \<not> contains (lower v) ''max-age''))"
  then show "fst (test_hsts_header env session st) \<noteq> Inr ()"
    unfolding test_hsts_header_passes_iff by auto
next
  fix r1 r2 v
  assume "fst (get env session HTTP_WWW_URL False (world st)) = Inr r1
       \<and> headers_get r1 ''Strict-Transport-Security'' = None
       \<and> fst (get env session HTTPS_WWW_URL True
                (snd (get env session HTTP_WWW_URL False (world st)))) = Inr r2
       \<and> status_code r2 = 200
       \<and> headers_get r2 ''Strict-Transport-Security'' = Some v
       \<and> contains (lower v) ''max-age''"
  then show "fst (test_hsts_header env session st) = Inr ()"
    unfolding test_hsts_header_passes_iff by blast
qed

theorem test_hsts_header_verdict_witness:
  "fst (test_hsts_header
          (server (Inr (with_hsts 301 ''max-age=31536000'')) (Inl ''down'')
                  (Inr (with_hsts 200 ''max-age=31536000''))) s0 st0)
     = Inl (AssertionError
              ''HSTS present on HTTP: max-age=31536000 (should be absent to avoid leaks)'')
   \<and> fst (test_hsts_header
          (server (Inr (redirect 301 ''https://www.kouidri.fr/'')) (Inl ''down'')
                  (Inr (status_only 200))) s0 st0) \<noteq> Inr ()
   \<and> fst (test_hsts_header
          (server (Inr (redirect 301 ''https://www.kouidri.fr/'')) (Inl ''down'')
                  (Inr (with_hsts 200 ''includeSubDomains; preload''))) s0 st0) \<noteq> Inr ()
   \<and> fst (test_hsts_header
          (server (Inr (redirect 301 ''https://www.kouidri.fr/'')) (Inl ''down'')
                  (Inr (with_hsts 200 ''Max-Age=31536000''))) s0 st0) = Inr ()"
proof -
  let ?leak = "server (Inr (with_hsts 301 ''max-age=31536000'')) (Inl ''down'')
                  (Inr (with_hsts 200 ''max-age=31536000''))"
  let ?missing = "server (Inr (redirect 301 ''https://www.kouidri.fr/'')) (Inl ''down'')
                  (Inr (status_only 200))"
  let ?no_age = "server (Inr (redirect 301 ''https://www.kouidri.fr/'')) (Inl ''down'')
                  (Inr (with_hsts 200 ''includeSubDomains; preload''))"
  let ?good = "server (Inr (redirect 301 ''https://www.kouidri.fr/'')) (Inl ''down'')
                  (Inr (with_hsts 200 ''Max-Age=31536000''))"
  show ?thesis
    using test_hsts_header_verdict [of ?leak s0 st0]
          test_hsts_header_verdict [of ?missing s0 st0]
          test_hsts_header_verdict [of ?no_age s0 st0]
          test_hsts_header_verdict [of ?good s0 st0]
    by (simp add: server_get urls_distinct status_code_examples headers_get_with_hsts
          headers_get_redirect headers_get_status_only contains_max_age_examples)
qed

text \<open>
  C10: the plaintext leg of the HSTS check places no constraint on the status code. For
  every plaintext response that lacks the \<open>Strict-Transport-Security\<close> header,
  whatever its status code and its other headers, that leg passes: the check does not
  fail with the plaintext leg's message, it goes on to the HTTPS request, and its outcome
  is the one the HTTPS response decides.
\<close>

theorem hsts_plaintext_leg_passes_for_any_status:
  assumes "fst (get env session HTTP_WWW_URL False (world st)) = Inr r1"
      and "headers_get r1 ''Strict-Transport-Security'' = None"
  shows "fst (test_hsts_header env session st) =
           (case fst (get env session HTTPS_WWW_URL True
                        (snd (get env session HTTP_WWW_URL False (world st)))) of
              Inl msg \<Rightarrow> Inl (RequestException msg)
            | Inr r2 \<Rightarrow>
                if status_code r2 \<noteq> 200
                then Inl (AssertionError (''Unexpected HTTPS status: ''
                       @ str_int (status_code r2) @ '' (expected 200)''))
                else case headers_get r2 ''Strict-Transport-Security'' of
                  None \<Rightarrow> Inl (AssertionError ''HSTS header missing on HTTPS'')
                | Some v \<Rightarrow>
                    if \<not> contains (lower v) ''max-age''
                    then Inl (AssertionError (''Invalid HSTS value on HTTPS: '' @ v
                           @ '' (should include 'max-age')''))
                    else Inr ())
       \<and> world (snd (test_hsts_header env session st))
           = snd (get env session HTTPS_WWW_URL True
                   (snd (get env session HTTP_WWW_URL False (world st))))
       \<and> (\<forall>v. fst (test_hsts_header env session st) \<noteq>
                Inl (AssertionError (''HSTS present on HTTP: '' @ v
                       @ '' (should be absent to avoid leaks)'')))"
proof -
  obtain w1 where g1: "get env session HTTP_WWW_URL False (world st) = (Inr r1, w1)"
    using assms(1) by (cases "get env session HTTP_WWW_URL False (world st)") simp
  obtain x w2 where g2: "get env session HTTPS_WWW_URL True w1 = (x, w2)"
    by (cases "get env session HTTPS_WWW_URL True w1")
  have leg:
    "fst (test_hsts_header env session st) =
       (case x of
          Inl msg \<Rightarrow> Inl (RequestException msg)
        | Inr r2 \<Rightarrow>
            if status_code r2 \<noteq> 200
            then Inl (AssertionError (''Unexpected HTTPS status: ''
                   @ str_int (status_code r2) @ '' (expected 200)''))
            else case headers_get r2 ''Strict-Transport-Security'' of
              None \<Rightarrow> Inl (AssertionError ''HSTS header missing on HTTPS'')
            | Some v \<Rightarrow>
                if \<not> contains (lower v) ''max-age''
                then Inl (AssertionError (''Invalid HSTS value on HTTPS: '' @ v
                       @ '' (should include 'max-age')''))
                else Inr ())"
    "world (snd (test_hsts_header env session st)) = w2"
    by (simp_all add: test_hsts_header_def session_get_def g1 assms(2) g2 print_def
          explain_def split: sum.splits option.splits)
  have "\<forall>v. fst (test_hsts_header env session st) \<noteq>
                Inl (AssertionError (''HSTS present on HTTP: '' @ v
                       @ '' (should be absent to avoid leaks)''))"
    unfolding leg(1) by (simp split: sum.splits option.splits)
  then show ?thesis
    using leg by (simp add: g1 g2)
qed

theorem hsts_plaintext_leg_passes_for_any_status_witness:
  "fst (test_hsts_header
          (server (Inr (status_only 404)) (Inl ''down'') (Inr (with_hsts 200 ''max-age=31536000'')))
          s0 st0) = Inr ()
   \<and> fst (test_hsts_header
          (server (Inr (status_only 200)) (Inl ''down'') (Inr (with_hsts 200 ''max-age=31536000'')))
          s0 st0) = Inr ()
   \<and> fst (test_hsts_header
          (server (Inr (redirect 301 ''https://www.kouidri.fr/'')) (Inl ''down'')
                  (Inr (with_hsts 200 ''max-age=31536000'')))
          s0 st0) = Inr ()
   \<and> world (snd (test_hsts_header
          (server (Inr (status_only 404)) (Inl ''down'') (Inr (with_hsts 200 ''max-age=31536000'')))
          s0 st0)) = [0, 0]
   \<and> fst (test_hsts_header
          (server (Inr (status_only 500)) (Inl ''down'') (Inr (status_only 200)))
          s0 st0) = Inl (AssertionError ''HSTS header missing on HTTPS'')"
proof -
  let ?https = "Inr (with_hsts 200 ''max-age=31536000'')"
  have age: "contains (lower ''max-age=31536000'') ''max-age''"
    by code_simp
  have "fst (test_hsts_header (server (Inr (status_only 404)) (Inl ''down'') ?https) s0 st0)
          = Inr ()
      \<and> world (snd (test_hsts_header
            (server (Inr (status_only 404)) (Inl ''down'') ?https) s0 st0)) = [0, 0]"
    using hsts_plaintext_leg_passes_for_any_status
            [of "server (Inr (status_only 404)) (Inl ''down'') ?https" s0 st0 "status_only 404"]
    by (simp add: server_get urls_distinct headers_get_status_only headers_get_with_hsts
          status_code_examples age st0_def s0_def)
  moreover
  have "fst (test_hsts_header (server (Inr (status_only 200)) (Inl ''down'') ?https) s0 st0)
          = Inr ()"
    using hsts_plaintext_leg_passes_for_any_status
            [of "server (Inr (status_only 200)) (Inl ''down'') ?https" s0 st0 "status_only 200"]
    by (simp add: server_get urls_distinct headers_get_status_only headers_get_with_hsts
          status_code_examples age)
  moreover
  have "fst (test_hsts_header
          (server (Inr (redirect 301 ''https://www.kouidri.fr/'')) (Inl ''down'') ?https)
          s0 st0) = Inr ()"
    using hsts_plaintext_leg_passes_for_any_status
            [of "server (Inr (redirect 301 ''https://www.kouidri.fr/'')) (Inl ''down'') ?https"
                s0 st0 "redirect 301 ''https://www.kouidri.fr/''"]
    by (simp add: server_get urls_distinct headers_get_redirect headers_get_with_hsts
          status_code_examples age)
  moreover
  have "fst (test_hsts_header
          (server (Inr (status_only 500)) (Inl ''down'') (Inr (status_only 200)))
          s0 st0) = Inl (AssertionError ''HSTS header missing on HTTPS'')"
    using hsts_plaintext_leg_passes_for_any_status
            [of "server (Inr (status_only 500)) (Inl ''down'') (Inr (status_only 200))"
                s0 st0 "status_only 500"]
    by (simp add: server_get urls_distinct headers_get_status_only status_code_examples)
  ultimately show ?thesis
    by simp
qed

section \<open>Failure reports\<close>





section \<open>A Location that is not an https URL\<close>




section \<open>Recording and replaying a run\<close>

text \<open>
  A check run on \<open>recording env\<close> has the outcome it has on \<open>env\<close> and leaves the
  state it leaves there; the log grows by the exchanges of the check, all made with the
  session the check was handed. Replaying the results of these exchanges, in order, to a
  check that is handed any session in any state gives the same outcome again.
\<close>

lemma all_tests_checks: "all_tests = map check_test all_checks"
  by (simp add: all_tests_def all_checks_def)

lemma recording_get:
  "get (recording env) session url a (w, log) =
     (fst (get env session url a w),
      (snd (get env session url a w),
       log @ [(session, url, a, fst (get env session url a w))]))"
  by (simp add: recording_def split: prod.splits)

lemma recording_check_bracketed: "check_bracketed (recording env) = check_bracketed env"
  by (simp add: recording_def)

lemma session_get_recording:
  "session_get (recording env) session url a (with_world st (w, log)) =
     (fst (session_get env session url a (with_world st w)),
      with_world (snd (session_get env session url a (with_world st w)))
        (world (snd (session_get env session url a (with_world st w))),
         log @ [(session, url, a, fst (get env session url a w))]))"
  by (simp add: session_get_def recording_get with_world_def split: prod.splits sum.splits)


lemma recorded_liveness:
  "test_liveness (recording env) s (with_world st (world st, log)) =
     (fst (test_liveness env s st),
      with_world (snd (test_liveness env s st))
        (world (snd (test_liveness env s st)),
         log @ [(s, HTTPS_WWW_URL, True, fst (get env s HTTPS_WWW_URL True (world st)))]))"
proof -
  obtain x w1 where g: "get env s HTTPS_WWW_URL True (world st) = (x, w1)"
    by (cases "get env s HTTPS_WWW_URL True (world st)")
  show ?thesis
    by (cases x)
       (simp_all add: test_liveness_def session_get_def recording_get with_world_def
          explain_def g)
qed

lemma recorded_http_to_https:
  "test_http_to_https_redirect (recording env) s (with_world st (world st, log)) =
     (fst (test_http_to_https_redirect env s st),
      with_world (snd (test_http_to_https_redirect env s st))
        (world (snd (test_http_to_https_redirect env s st)),
         log @ [(s, HTTP_WWW_URL, False, fst (get env s HTTP_WWW_URL False (world st)))]))"
proof -
  obtain x w1 where g: "get env s HTTP_WWW_URL False (world st) = (x, w1)"
    by (cases "get env s HTTP_WWW_URL False (world st)")
  show ?thesis
    by (cases x)
       (simp_all add: test_http_to_https_redirect_def session_get_def recording_get
          recording_check_bracketed with_world_def explain_def print_def g
          split: sum.splits option.splits)
qed

lemma recorded_non_www_to_www:
  "test_non_www_to_www_redirect (recording env) s (with_world st (world st, log)) =
     (fst (test_non_www_to_www_redirect env s st),
      with_world (snd (test_non_www_to_www_redirect env s st))
        (world (snd (test_non_www_to_www_redirect env s st)),
         log @ [(s, HTTPS_NON_WWW_URL, False,
                 fst (get env s HTTPS_NON_WWW_URL False (world st)))]))"
proof -
  obtain x w1 where g: "get env s HTTPS_NON_WWW_URL False (world st) = (x, w1)"
    by (cases "get env s HTTPS_NON_WWW_URL False (world st)")
  show ?thesis
    by (cases x)
       (simp_all add: test_non_www_to_www_redirect_def session_get_def recording_get
          recording_check_bracketed with_world_def explain_def print_def g
          split: sum.splits option.splits)
qed

lemma recorded_hsts:
  "test_hsts_header (recording env) s (with_world st (world st, log)) =
     (fst (test_hsts_header env s st),
      with_world (snd (test_hsts_header env s st))
        (world (snd (test_hsts_header env s st)),
         log @ (s, HTTP_WWW_URL, False, fst (get env s HTTP_WWW_URL False (world st)))
             # (case fst (get env s HTTP_WWW_URL False (world st)) of
                  Inl msg \<Rightarrow> []
                | Inr r1 \<Rightarrow>
                    (case headers_get r1 ''Strict-Transport-Security'' of
                       Some v \<Rightarrow> []
                     | None \<Rightarrow>
                         [(s, HTTPS_WWW_URL, True,
                           fst (get env s HTTPS_WWW_URL True
                                  (snd (get env s HTTP_WWW_URL False (world st)))))]))))"
proof -
  obtain x1 w1 where g1: "get env s HTTP_WWW_URL False (world st) = (x1, w1)"
    by (cases "get env s HTTP_WWW_URL False (world st)")
  obtain x2 w2 where g2: "get env s HTTPS_WWW_URL True w1 = (x2, w2)"
    by (cases "get env s HTTPS_WWW_URL True w1")
  show ?thesis
    by (cases x1; cases x2)
       (simp_all add: test_hsts_header_def session_get_def recording_get
          with_world_def explain_def print_def g1 g2 split: option.splits)
qed


lemma replay_get:
  "get (replay c) session url a (x # rest) = (x, rest)"
  "check_bracketed (replay c) = c"
  by (simp_all add: replay_def)

lemma replayed_liveness:
  assumes "world st_r = fst (get env s HTTPS_WWW_URL True (world st)) # rest"
  shows "fst (test_liveness (replay c) s' st_r) = fst (test_liveness env s st)
       \<and> world (snd (test_liveness (replay c) s' st_r)) = rest"
proof -
  obtain x w1 where g: "get env s HTTPS_WWW_URL True (world st) = (x, w1)"
    by (cases "get env s HTTPS_WWW_URL True (world st)")
  show ?thesis
    using assms
    by (cases x) (simp_all add: test_liveness_def session_get_def replay_get explain_def g)
qed

lemma replayed_http_to_https:
  assumes "world st_r = fst (get env s HTTP_WWW_URL False (world st)) # rest"
  shows "fst (test_http_to_https_redirect (replay (check_bracketed env)) s' st_r)
           = fst (test_http_to_https_redirect env s st)
       \<and> world (snd (test_http_to_https_redirect (replay (check_bracketed env)) s' st_r)) = rest"
proof -
  obtain x w1 where g: "get env s HTTP_WWW_URL False (world st) = (x, w1)"
    by (cases "get env s HTTP_WWW_URL False (world st)")
  show ?thesis
    using assms
    by (cases x)
       (simp_all add: test_http_to_https_redirect_def session_get_def replay_get explain_def
          print_def g split: sum.splits option.splits)
qed

lemma replayed_non_www_to_www:
  assumes "world st_r = fst (get env s HTTPS_NON_WWW_URL False (world st)) # rest"
  shows "fst (test_non_www_to_www_redirect (replay (check_bracketed env)) s' st_r)
           = fst (test_non_www_to_www_redirect env s st)
       \<and> world (snd (test_non_www_to_www_redirect (replay (check_bracketed env)) s' st_r)) = rest"
proof -
  obtain x w1 where g: "get env s HTTPS_NON_WWW_URL False (world st) = (x, w1)"
    by (cases "get env s HTTPS_NON_WWW_URL False (world st)")
  show ?thesis
    using assms
    by (cases x)
       (simp_all add: test_non_www_to_www_redirect_def session_get_def replay_get explain_def
          print_def g split: sum.splits option.splits)
qed

lemma replayed_hsts:
  assumes "world st_r =
             fst (get env s HTTP_WWW_URL False (world st))
             # (case fst (get env s HTTP_WWW_URL False (world st)) of
                  Inl msg \<Rightarrow> []
                | Inr r1 \<Rightarrow>
                    (case headers_get r1 ''Strict-Transport-Security'' of
                       Some v \<Rightarrow> []
                     | None \<Rightarrow>
                         [fst (get env s HTTPS_WWW_URL True
                                 (snd (get env s HTTP_WWW_URL False (world st))))]))
             @ rest"
  shows "fst (test_hsts_header (replay c) s' st_r) = fst (test_hsts_header env s st)
       \<and> world (snd (test_hsts_header (replay c) s' st_r)) = rest"
proof -
  obtain x1 w1 where g1: "get env s HTTP_WWW_URL False (world st) = (x1, w1)"
    by (cases "get env s HTTP_WWW_URL False (world st)")
  obtain x2 w2 where g2: "get env s HTTPS_WWW_URL True w1 = (x2, w2)"
    by (cases "get env s HTTPS_WWW_URL True w1")
  show ?thesis
    using assms
    by (cases x1; cases x2)
       (simp_all add: test_hsts_header_def session_get_def replay_get explain_def
          print_def g1 g2 split: option.splits)
qed

lemma check_recorded:
  "\<exists>E. (\<forall>log. check_test c (recording env) s (with_world st (world st, log)) =
              (fst (check_test c env s st),
               with_world (snd (check_test c env s st))
                 (world (snd (check_test c env s st)), log @ E)))
     \<and> E \<noteq> [] \<and> (\<forall>e\<in>set E. fst e = s)
     \<and> (\<forall>s' st_r rest. world st_r = map result E @ rest \<longrightarrow>
            fst (check_test c (replay (check_bracketed env)) s' st_r)
              = fst (check_test c env s st)
          \<and> world (snd (check_test c (replay (check_bracketed env)) s' st_r)) = rest)"
proof (cases c)
  case Liveness
  show ?thesis
    unfolding Liveness check_test.simps
    by (rule exI [of _ "[(s, HTTPS_WWW_URL, True, fst (get env s HTTPS_WWW_URL True (world st)))]"])
       (simp add: recorded_liveness replayed_liveness result_def)
next
  case Http_to_https
  show ?thesis
    unfolding Http_to_https check_test.simps
    by (rule exI [of _ "[(s, HTTP_WWW_URL, False, fst (get env s HTTP_WWW_URL False (world st)))]"])
       (simp add: recorded_http_to_https replayed_http_to_https result_def)
next
  case Non_www_to_www
  show ?thesis
    unfolding Non_www_to_www check_test.simps
    by (rule exI [of _ "[(s, HTTPS_NON_WWW_URL, False,
                          fst (get env s HTTPS_NON_WWW_URL False (world st)))]"])
       (simp add: recorded_non_www_to_www replayed_non_www_to_www result_def)
next
  case Hsts
  let ?E = "(s, HTTP_WWW_URL, False, fst (get env s HTTP_WWW_URL False (world st)))
             # (case fst (get env s HTTP_WWW_URL False (world st)) of
                  Inl msg \<Rightarrow> []
                | Inr r1 \<Rightarrow>
                    (case headers_get r1 ''Strict-Transport-Security'' of
                       Some v \<Rightarrow> []
                     | None \<Rightarrow>
                         [(s, HTTPS_WWW_URL, True,
                           fst (get env s HTTPS_WWW_URL True
                                  (snd (get env s HTTP_WWW_URL False (world st)))))]))"
  have r: "map result ?E =
             fst (get env s HTTP_WWW_URL False (world st))
             # (case fst (get env s HTTP_WWW_URL False (world st)) of
                  Inl msg \<Rightarrow> []
                | Inr r1 \<Rightarrow>
                    (case headers_get r1 ''Strict-Transport-Security'' of
                       Some v \<Rightarrow> []
                     | None \<Rightarrow>
                         [fst (get env s HTTPS_WWW_URL True
                                 (snd (get env s HTTP_WWW_URL False (world st))))]))"
    by (simp add: result_def split: sum.splits option.splits)
  have "\<forall>e\<in>set ?E. fst e = s"
    by (auto split: sum.splits option.splits)
  moreover have "\<forall>s' st_r rest. world st_r = map result ?E @ rest \<longrightarrow>
            fst (test_hsts_header (replay (check_bracketed env)) s' st_r)
              = fst (test_hsts_header env s st)
          \<and> world (snd (test_hsts_header (replay (check_bracketed env)) s' st_r)) = rest"
    unfolding r using replayed_hsts [of _ env s st] by simp
  ultimately show ?thesis
    unfolding Hsts check_test.simps
    by (intro exI [of _ ?E]) (simp add: recorded_hsts)
qed


lemma http_session_result:
  "http_session st =
     (\<lparr>ident = sessions_created st, verify = True\<rparr>,
      st\<lparr>sessions_created := Suc (sessions_created st)\<rparr>)"
  by (simp add: http_session_def Session_def)

lemma run_test_unfold:
  "run_test env test st =
     test env \<lparr>ident = sessions_created st, verify = True\<rparr>
       (st\<lparr>sessions_created := Suc (sessions_created st)\<rparr>)"
  by (simp add: run_test_def http_session_result)

lemma run_test_recording_unfold:
  "run_test (recording env) test (with_world st (world st, log)) =
     test (recording env) \<lparr>ident = sessions_created st, verify = True\<rparr>
       (with_world (st\<lparr>sessions_created := Suc (sessions_created st)\<rparr>)
          (world (st\<lparr>sessions_created := Suc (sessions_created st)\<rparr>), log))"
  by (simp add: run_test_unfold with_world_def)

lemma run_test_replay_world:
  "world (st_r\<lparr>sessions_created := n\<rparr>) = world st_r"
  by simp

lemma run_test_recorded:
  "\<exists>E. (\<forall>log. run_test (recording env) (check_test c) (with_world st (world st, log)) =
              (fst (run_test env (check_test c) st),
               with_world (snd (run_test env (check_test c) st))
                 (world (snd (run_test env (check_test c) st)), log @ E)))
     \<and> E \<noteq> [] \<and> (\<forall>e\<in>set E. fst e = \<lparr>ident = sessions_created st, verify = True\<rparr>)
     \<and> (\<forall>st_r rest. world st_r = map result E @ rest \<longrightarrow>
            fst (run_test (replay (check_bracketed env)) (check_test c) st_r)
              = fst (run_test env (check_test c) st)
          \<and> world (snd (run_test (replay (check_bracketed env)) (check_test c) st_r)) = rest)"
proof -
  let ?s = "\<lparr>ident = sessions_created st, verify = True\<rparr>"
  let ?st1 = "st\<lparr>sessions_created := Suc (sessions_created st)\<rparr>"
  obtain E where E:
    "\<forall>log. check_test c (recording env) ?s (with_world ?st1 (world ?st1, log)) =
              (fst (check_test c env ?s ?st1),
               with_world (snd (check_test c env ?s ?st1))
                 (world (snd (check_test c env ?s ?st1)), log @ E))"
    "E \<noteq> []" "\<forall>e\<in>set E. fst e = ?s"
    "\<forall>s' st_r rest. world st_r = map result E @ rest \<longrightarrow>
            fst (check_test c (replay (check_bracketed env)) s' st_r)
              = fst (check_test c env ?s ?st1)
          \<and> world (snd (check_test c (replay (check_bracketed env)) s' st_r)) = rest"
    using check_recorded [of c env ?s ?st1] by blast
  have "\<forall>st_r rest. world st_r = map result E @ rest \<longrightarrow>
            fst (run_test (replay (check_bracketed env)) (check_test c) st_r)
              = fst (run_test env (check_test c) st)
          \<and> world (snd (run_test (replay (check_bracketed env)) (check_test c) st_r)) = rest"
    using E(4) by (simp add: run_test_unfold)
  moreover
  have "\<forall>log. run_test (recording env) (check_test c) (with_world st (world st, log)) =
              (fst (run_test env (check_test c) st),
               with_world (snd (run_test env (check_test c) st))
                 (world (snd (run_test env (check_test c) st)), log @ E))"
    using E(1) by (simp add: run_test_recording_unfold run_test_unfold [of env])
  ultimately show ?thesis
    using E(2,3) by blast
qed

lemma run_tests_recorded:
  "\<exists>E. (\<forall>log. run_tests (recording env) (map check_test cs) (with_world st (world st, log)) =
              (fst (run_tests env (map check_test cs) st),
               with_world (snd (run_tests env (map check_test cs) st))
                 (world (snd (run_tests env (map check_test cs) st)), log @ E)))
     \<and> (\<forall>st_r rest. world st_r = map result E @ rest \<longrightarrow>
            fst (run_tests (replay (check_bracketed env)) (map check_test cs) st_r)
              = fst (run_tests env (map check_test cs) st)
          \<and> world (snd (run_tests (replay (check_bracketed env)) (map check_test cs) st_r))
              = rest)"
proof (induction cs arbitrary: st)
  case Nil
  show ?case
    by (rule exI [of _ "[]"]) (simp add: with_world_def)
next
  case (Cons c cs)
  let ?r = "replay (check_bracketed env)"
  obtain o1 st1 where one: "run_test env (check_test c) st = (o1, st1)"
    by (cases "run_test env (check_test c) st")
  obtain os st2 where more: "run_tests env (map check_test cs) st1 = (os, st2)"
    by (cases "run_tests env (map check_test cs) st1")
  obtain E1 where E1:
    "\<forall>log. run_test (recording env) (check_test c) (with_world st (world st, log)) =
              (o1, with_world st1 (world st1, log @ E1))"
    "\<forall>st_r rest. world st_r = map result E1 @ rest \<longrightarrow>
            fst (run_test ?r (check_test c) st_r) = o1
          \<and> world (snd (run_test ?r (check_test c) st_r)) = rest"
    using run_test_recorded [of env c st] one by auto
  obtain E2 where E2:
    "\<forall>log. run_tests (recording env) (map check_test cs) (with_world st1 (world st1, log)) =
              (os, with_world st2 (world st2, log @ E2))"
    "\<forall>st_r rest. world st_r = map result E2 @ rest \<longrightarrow>
            fst (run_tests ?r (map check_test cs) st_r) = os
          \<and> world (snd (run_tests ?r (map check_test cs) st_r)) = rest"
    using Cons.IH [of st1] more by auto
  have rec: "\<forall>log. run_tests (recording env) (map check_test (c # cs))
                     (with_world st (world st, log)) =
              (o1 # os, with_world st2 (world st2, log @ E1 @ E2))"
    using E1(1) E2(1) by simp
  have rep: "fst (run_tests ?r (map check_test (c # cs)) st_r) = o1 # os
          \<and> world (snd (run_tests ?r (map check_test (c # cs)) st_r)) = rest"
    if w: "world st_r = map result (E1 @ E2) @ rest" for st_r rest
  proof -
    obtain o1' st1' where a: "run_test ?r (check_test c) st_r = (o1', st1')"
      by (cases "run_test ?r (check_test c) st_r")
    have "o1' = o1" "world st1' = map result E2 @ rest"
      using E1(2) [rule_format, of st_r "map result E2 @ rest"] w a by simp_all
    moreover
    obtain os' st2' where b: "run_tests ?r (map check_test cs) st1' = (os', st2')"
      by (cases "run_tests ?r (map check_test cs) st1'")
    ultimately have "os' = os" "world st2' = rest"
      using E2(2) [rule_format, of st1' rest] by simp_all
    then show ?thesis
      using a b \<open>o1' = o1\<close> by simp
  qed
  show ?case
    by (rule exI [of _ "E1 @ E2"]) (use rec rep in \<open>simp add: one more\<close>)
qed


lemma tests_keep_sessions_created:
  "sessions_created (snd (test_liveness env session st)) = sessions_created st"
  "sessions_created (snd (test_http_to_https_redirect env session st)) = sessions_created st"
  "sessions_created (snd (test_non_www_to_www_redirect env session st)) = sessions_created st"
  "sessions_created (snd (test_hsts_header env session st)) = sessions_created st"
  by (auto simp: test_liveness_def test_http_to_https_redirect_def
        test_non_www_to_www_redirect_def test_hsts_header_def session_get_def print_def
        explain_def split: prod.splits sum.splits option.splits)

lemma checks_keep_sessions_created:
  "sessions_created (snd (check_test c env session st)) = sessions_created st"
  by (cases c) (simp_all add: tests_keep_sessions_created)

lemma exchanges_recorded:
  "run_tests (recording env) (map check_test cs) (with_world st (world st, log)) =
     (fst (run_tests env (map check_test cs) st),
      with_world (snd (run_tests env (map check_test cs) st))
        (world (snd (run_tests env (map check_test cs) st)), log @ exchanges env cs st))"
proof -
  obtain E where E:
    "\<forall>log. run_tests (recording env) (map check_test cs) (with_world st (world st, log)) =
              (fst (run_tests env (map check_test cs) st),
               with_world (snd (run_tests env (map check_test cs) st))
                 (world (snd (run_tests env (map check_test cs) st)), log @ E))"
    using run_tests_recorded [of env cs st] by blast
  have "exchanges env cs st = E"
    using E [rule_format, of "[]"] by (simp add: exchanges_def with_world_def)
  then show ?thesis
    using E by simp
qed

lemma exchanges_replay:
  assumes "world st_r = map result (exchanges env cs st)"
  shows "fst (run_tests (replay (check_bracketed env)) (map check_test cs) st_r)
           = fst (run_tests env (map check_test cs) st)"
proof -
  obtain E where E:
    "\<forall>log. run_tests (recording env) (map check_test cs) (with_world st (world st, log)) =
              (fst (run_tests env (map check_test cs) st),
               with_world (snd (run_tests env (map check_test cs) st))
                 (world (snd (run_tests env (map check_test cs) st)), log @ E))"
    "\<forall>st_r rest. world st_r = map result E @ rest \<longrightarrow>
            fst (run_tests (replay (check_bracketed env)) (map check_test cs) st_r)
              = fst (run_tests env (map check_test cs) st)
          \<and> world (snd (run_tests (replay (check_bracketed env)) (map check_test cs) st_r))
              = rest"
    using run_tests_recorded [of env cs st] by blast
  have "exchanges env cs st = E"
    using E(1) [rule_format, of "[]"] by (simp add: exchanges_def with_world_def)
  then show ?thesis
    using E(2) [rule_format, of st_r "[]"] assms by simp
qed

lemma world_with_world: "world (with_world st w) = w"
  by (simp add: with_world_def)

lemma exchanges_Cons:
  "exchanges env (c # cs) st =
     exchanges env [c] st @ exchanges env cs (snd (run_test env (check_test c) st))"
proof -
  obtain r st1 where one: "run_test env (check_test c) st = (r, st1)"
    by (cases "run_test env (check_test c) st")
  have single: "run_tests env (map check_test [c]) st = ([r], st1)"
    by (simp add: one)
  have first: "run_test (recording env) (check_test c) (with_world st (world st, [])) =
                 (r, with_world st1 (world st1, exchanges env [c] st))"
    using exchanges_recorded [of env "[c]" st "[]"] unfolding single
    by (simp split: prod.splits)
  show ?thesis
    by (simp add: exchanges_def [of env "c # cs"] first exchanges_recorded one
          world_with_world)
qed

lemma exchanges_one:
  "exchanges env [c] st \<noteq> []"
  "\<forall>e\<in>set (exchanges env [c] st). fst e = \<lparr>ident = sessions_created st, verify = True\<rparr>"
proof -
  obtain E where E:
    "\<forall>log. run_test (recording env) (check_test c) (with_world st (world st, log)) =
              (fst (run_test env (check_test c) st),
               with_world (snd (run_test env (check_test c) st))
                 (world (snd (run_test env (check_test c) st)), log @ E))"
    "E \<noteq> []" "\<forall>e\<in>set E. fst e = \<lparr>ident = sessions_created st, verify = True\<rparr>"
    using run_test_recorded [of env c st] by blast
  have "exchanges env [c] st = E"
    using E(1) [rule_format, of "[]"] by (simp add: exchanges_def with_world_def)
  then show "exchanges env [c] st \<noteq> []"
    and "\<forall>e\<in>set (exchanges env [c] st). fst e = \<lparr>ident = sessions_created st, verify = True\<rparr>"
    using E(2,3) by simp_all
qed

lemma run_test_sessions_created:
  "sessions_created (snd (run_test env (check_test c) st)) = Suc (sessions_created st)"
  by (simp add: run_test_unfold checks_keep_sessions_created)

lemma exchanges_requests:
  "map request (exchanges env [Liveness] st) =
     [(\<lparr>ident = sessions_created st, verify = True\<rparr>, HTTPS_WWW_URL, True)]"
  "map request (exchanges env [Http_to_https] st) =
     [(\<lparr>ident = sessions_created st, verify = True\<rparr>, HTTP_WWW_URL, False)]"
  "map request (exchanges env [Non_www_to_www] st) =
     [(\<lparr>ident = sessions_created st, verify = True\<rparr>, HTTPS_NON_WWW_URL, False)]"
  "map request (exchanges env [Hsts] st) =
     [(\<lparr>ident = sessions_created st, verify = True\<rparr>, HTTP_WWW_URL, False)]
   \<or> map request (exchanges env [Hsts] st) =
     [(\<lparr>ident = sessions_created st, verify = True\<rparr>, HTTP_WWW_URL, False),
      (\<lparr>ident = sessions_created st, verify = True\<rparr>, HTTPS_WWW_URL, True)]"
proof -
  let ?s = "\<lparr>ident = sessions_created st, verify = True\<rparr>"
  let ?st1 = "st\<lparr>sessions_created := Suc (sessions_created st)\<rparr>"
  have run: "exchanges env [c] st =
               snd (world (snd (check_test c (recording env) ?s
                                  (with_world ?st1 (world ?st1, [])))))" for c
    unfolding exchanges_def
    by (simp add: run_test_recording_unfold split: prod.splits)
  show "map request (exchanges env [Liveness] st) = [(?s, HTTPS_WWW_URL, True)]"
    by (simp only: run check_test.simps recorded_liveness;
        simp add: with_world_def request_def)
  show "map request (exchanges env [Http_to_https] st) = [(?s, HTTP_WWW_URL, False)]"
    by (simp only: run check_test.simps recorded_http_to_https;
        simp add: with_world_def request_def)
  show "map request (exchanges env [Non_www_to_www] st) = [(?s, HTTPS_NON_WWW_URL, False)]"
    by (simp only: run check_test.simps recorded_non_www_to_www;
        simp add: with_world_def request_def)
  show "map request (exchanges env [Hsts] st) = [(?s, HTTP_WWW_URL, False)]
      \<or> map request (exchanges env [Hsts] st) =
          [(?s, HTTP_WWW_URL, False), (?s, HTTPS_WWW_URL, True)]"
    by (simp only: run check_test.simps recorded_hsts;
        simp add: with_world_def request_def split: sum.splits option.splits)
qed

lemma exchanges_single:
  "exchanges env [Liveness] st =
     [(\<lparr>ident = sessions_created st, verify = True\<rparr>, HTTPS_WWW_URL, True,
       fst (get env \<lparr>ident = sessions_created st, verify = True\<rparr> HTTPS_WWW_URL True (world st)))]"
  "exchanges env [Http_to_https] st =
     [(\<lparr>ident = sessions_created st, verify = True\<rparr>, HTTP_WWW_URL, False,
       fst (get env \<lparr>ident = sessions_created st, verify = True\<rparr> HTTP_WWW_URL False (world st)))]"
  "exchanges env [Non_www_to_www] st =
     [(\<lparr>ident = sessions_created st, verify = True\<rparr>, HTTPS_NON_WWW_URL, False,
       fst (get env \<lparr>ident = sessions_created st, verify = True\<rparr> HTTPS_NON_WWW_URL False
              (world st)))]"
proof -
  let ?s = "\<lparr>ident = sessions_created st, verify = True\<rparr>"
  let ?st1 = "st\<lparr>sessions_created := Suc (sessions_created st)\<rparr>"
  have run: "exchanges env [c] st =
               snd (world (snd (check_test c (recording env) ?s
                                  (with_world ?st1 (world ?st1, [])))))" for c
    unfolding exchanges_def
    by (simp add: run_test_recording_unfold split: prod.splits)
  show "exchanges env [Liveness] st =
          [(?s, HTTPS_WWW_URL, True, fst (get env ?s HTTPS_WWW_URL True (world st)))]"
    by (simp only: run check_test.simps recorded_liveness; simp add: with_world_def)
  show "exchanges env [Http_to_https] st =
          [(?s, HTTP_WWW_URL, False, fst (get env ?s HTTP_WWW_URL False (world st)))]"
    by (simp only: run check_test.simps recorded_http_to_https; simp add: with_world_def)
  show "exchanges env [Non_www_to_www] st =
          [(?s, HTTPS_NON_WWW_URL, False, fst (get env ?s HTTPS_NON_WWW_URL False (world st)))]"
    by (simp only: run check_test.simps recorded_non_www_to_www; simp add: with_world_def)
qed

lemma exchanges_hsts:
  "exchanges env [Hsts] st =
     (\<lparr>ident = sessions_created st, verify = True\<rparr>, HTTP_WWW_URL, False,
      fst (get env \<lparr>ident = sessions_created st, verify = True\<rparr> HTTP_WWW_URL False (world st)))
     # (case fst (get env \<lparr>ident = sessions_created st, verify = True\<rparr> HTTP_WWW_URL False
                    (world st)) of
          Inl msg \<Rightarrow> []
        | Inr r1 \<Rightarrow>
            (case headers_get r1 ''Strict-Transport-Security'' of
               Some v \<Rightarrow> []
             | None \<Rightarrow>
                 [(\<lparr>ident = sessions_created st, verify = True\<rparr>, HTTPS_WWW_URL, True,
                   fst (get env \<lparr>ident = sessions_created st, verify = True\<rparr> HTTPS_WWW_URL True
                          (snd (get env \<lparr>ident = sessions_created st, verify = True\<rparr>
                                  HTTP_WWW_URL False (world st)))))]))"
proof -
  let ?s = "\<lparr>ident = sessions_created st, verify = True\<rparr>"
  let ?st1 = "st\<lparr>sessions_created := Suc (sessions_created st)\<rparr>"
  have run: "exchanges env [Hsts] st =
               snd (world (snd (test_hsts_header (recording env) ?s
                                  (with_world ?st1 (world ?st1, [])))))"
    unfolding exchanges_def
    by (simp add: run_test_recording_unfold split: prod.splits)
  show ?thesis
    by (simp only: run recorded_hsts;
        simp add: with_world_def split: sum.splits option.splits)
qed

lemma kouidri_results:
  "map result (exchanges kouidri all_checks st) =
     [Inr (with_hsts 200 ''max-age=31536000''), Inr (redirect 301 ''https://www.kouidri.fr/''),
      Inr (redirect 301 ''https://www.kouidri.fr/''), Inr (redirect 301 ''https://www.kouidri.fr/''),
      Inr (with_hsts 200 ''max-age=31536000'')]"
  unfolding all_checks_def
  by (simp add: exchanges_Cons [of _ _ "_ # _"] exchanges_single exchanges_hsts result_def
        kouidri_def server_get urls_distinct headers_get_redirect)


section \<open>One session for each check\<close>

text \<open>
  C6, as amended: each of the four checks receives its own transport session object,
  made by the fixture for that check and configured at creation with certificate
  verification on; the checks hand it to every request unchanged, so every request of a
  run is made with verification on and there is no insecure fallback. In a run of the
  four checks from a state with \<open>n\<close> sessions, the liveness check makes its request
  with session \<open>n\<close>, the HTTP-to-HTTPS check with session \<open>n + 1\<close>, the non-www-to-www
  check with session \<open>n + 2\<close>, and the HSTS check makes its one or two requests with
  session \<open>n + 3\<close>: a session is reused only inside one check. In a run of any list of
  checks, the first check makes at least one request, all with the session the fixture
  has just made, the fixture is called once for it, and the exchanges of the other
  checks follow.
\<close>

theorem each_check_has_its_own_session:
  "all_tests = map check_test all_checks
 \<and> fst (run_tests (recording env) (map check_test cs) (with_world st (world st, [])))
     = fst (run_tests env (map check_test cs) st)
 \<and> (map request (exchanges env all_checks st) =
       [(\<lparr>ident = sessions_created st, verify = True\<rparr>, HTTPS_WWW_URL, True),
        (\<lparr>ident = sessions_created st + 1, verify = True\<rparr>, HTTP_WWW_URL, False),
        (\<lparr>ident = sessions_created st + 2, verify = True\<rparr>, HTTPS_NON_WWW_URL, False),
        (\<lparr>ident = sessions_created st + 3, verify = True\<rparr>, HTTP_WWW_URL, False)]
    \<or> map request (exchanges env all_checks st) =
       [(\<lparr>ident = sessions_created st, verify = True\<rparr>, HTTPS_WWW_URL, True),
        (\<lparr>ident = sessions_created st + 1, verify = True\<rparr>, HTTP_WWW_URL, False),
        (\<lparr>ident = sessions_created st + 2, verify = True\<rparr>, HTTPS_NON_WWW_URL, False),
        (\<lparr>ident = sessions_created st + 3, verify = True\<rparr>, HTTP_WWW_URL, False),
        (\<lparr>ident = sessions_created st + 3, verify = True\<rparr>, HTTPS_WWW_URL, True)])
 \<and> exchanges env (c # cs) st =
       exchanges env [c] st @ exchanges env cs (snd (run_test env (check_test c) st))
 \<and> exchanges env [c] st \<noteq> []
 \<and> (\<forall>e\<in>set (exchanges env [c] st). fst e = \<lparr>ident = sessions_created st, verify = True\<rparr>)
 \<and> sessions_created (snd (run_test env (check_test c) st)) = Suc (sessions_created st)
 \<and> fst (http_session st) = \<lparr>ident = sessions_created st, verify = True\<rparr>"
proof -
  let ?st1 = "snd (run_test env test_liveness st)"
  let ?st2 = "snd (run_test env test_http_to_https_redirect ?st1)"
  let ?st3 = "snd (run_test env test_non_www_to_www_redirect ?st2)"
  have n: "sessions_created ?st1 = sessions_created st + 1"
      "sessions_created ?st2 = sessions_created st + 2"
      "sessions_created ?st3 = sessions_created st + 3"
    using run_test_sessions_created [of env Liveness st]
          run_test_sessions_created [of env Http_to_https ?st1]
          run_test_sessions_created [of env Non_www_to_www ?st2]
    by simp_all
  have split: "exchanges env all_checks st =
                 exchanges env [Liveness] st @ exchanges env [Http_to_https] ?st1
                 @ exchanges env [Non_www_to_www] ?st2 @ exchanges env [Hsts] ?st3"
    unfolding all_checks_def
    using exchanges_Cons [of env Liveness "[Http_to_https, Non_www_to_www, Hsts]" st]
          exchanges_Cons [of env Http_to_https "[Non_www_to_www, Hsts]" ?st1]
          exchanges_Cons [of env Non_www_to_www "[Hsts]" ?st2]
    by simp
  have "map request (exchanges env all_checks st) =
       [(\<lparr>ident = sessions_created st, verify = True\<rparr>, HTTPS_WWW_URL, True),
        (\<lparr>ident = sessions_created st + 1, verify = True\<rparr>, HTTP_WWW_URL, False),
        (\<lparr>ident = sessions_created st + 2, verify = True\<rparr>, HTTPS_NON_WWW_URL, False),
        (\<lparr>ident = sessions_created st + 3, verify = True\<rparr>, HTTP_WWW_URL, False)]
    \<or> map request (exchanges env all_checks st) =
       [(\<lparr>ident = sessions_created st, verify = True\<rparr>, HTTPS_WWW_URL, True),
        (\<lparr>ident = sessions_created st + 1, verify = True\<rparr>, HTTP_WWW_URL, False),
        (\<lparr>ident = sessions_created st + 2, verify = True\<rparr>, HTTPS_NON_WWW_URL, False),
        (\<lparr>ident = sessions_created st + 3, verify = True\<rparr>, HTTP_WWW_URL, False),
        (\<lparr>ident = sessions_created st + 3, verify = True\<rparr>, HTTPS_WWW_URL, True)]"
    using exchanges_requests(4) [of env ?st3]
    by (auto simp: split exchanges_requests(1-3) n)
  then show ?thesis
    using exchanges_recorded [of env cs st "[]"] exchanges_Cons [of env c cs st]
          exchanges_one [of env c st] run_test_sessions_created [of env c st]
    by (simp add: all_tests_checks http_session_def Session_def)
qed

theorem each_check_has_its_own_session_witness:
  "map request (exchanges kouidri all_checks st0) =
     [(\<lparr>ident = 0, verify = True\<rparr>, ''https://www.kouidri.fr'', True),
      (\<lparr>ident = 1, verify = True\<rparr>, ''http://www.kouidri.fr'', False),
      (\<lparr>ident = 2, verify = True\<rparr>, ''https://kouidri.fr'', False),
      (\<lparr>ident = 3, verify = True\<rparr>, ''http://www.kouidri.fr'', False),
      (\<lparr>ident = 3, verify = True\<rparr>, ''https://www.kouidri.fr'', True)]"
proof -
  have sessions: "map (\<lambda>e. ident (fst e)) (exchanges kouidri all_checks st0) = [0, 1, 2, 3, 3]"
    by code_simp
  have "sessions_created st0 = 0"
    by (simp add: st0_def)
  then show ?thesis
    using each_check_has_its_own_session [of kouidri "[]" st0 Liveness]
          arg_cong [OF sessions, of length]
    by (auto simp: HTTPS_WWW_URL_def HTTP_WWW_URL_def HTTPS_NON_WWW_URL_def WWW_DOMAIN_def
          NON_WWW_DOMAIN_def dest: arg_cong [where f = length])
qed


text \<open>
  C6 as stated fails: in a run of the four checks against the server of the spec's
  scenario, the five requests are made by the sessions numbered 0, 1, 2, 3 and 3. The
  checks use four session objects, not one shared object; only the two requests of the
  HSTS check share a session.
\<close>

theorem four_sessions_not_one:
  "world (snd (run_tests kouidri all_tests st0)) = [0, 1, 2, 3, 3]
   \<and> fst (run_tests kouidri all_tests st0) = [Inr (), Inr (), Inr (), Inr ()]"
  by code_simp

section \<open>Outcomes and the responses received\<close>

text \<open>
  A server whose answer to a request depends on the request and on what the asking
  session has done before (its cookies, its connections), but on nothing another session
  did: \<open>\<alpha> w i\<close> is what the world \<open>w\<close> remembers of session \<open>i\<close>. Every check is
  handed a session of which the world remembers nothing yet, so its outcome is the same
  wherever it runs.
\<close>

lemma fresh_session_outcome:
  assumes ans: "\<And>s u a w. verify s \<Longrightarrow> fst (get env s u a w) = answer u a (\<alpha> w (ident s))"
      and own: "\<And>s u a w. verify s \<Longrightarrow>
                  \<alpha> (snd (get env s u a w)) (ident s) = after u a (\<alpha> w (ident s))"
      and oth: "\<And>s u a w i. verify s \<Longrightarrow> i \<noteq> ident s \<Longrightarrow>
                  \<alpha> (snd (get env s u a w)) i = \<alpha> w i"
      and v: "verify s" "verify s'"
      and fr: "\<alpha> (world st) (ident s) = h0" "\<alpha> (world st') (ident s') = h0"
  shows "fst (check_test c env s st) = fst (check_test c env s' st')"
    and "i \<noteq> ident s \<Longrightarrow> \<alpha> (world (snd (check_test c env s st))) i = \<alpha> (world st) i"
proof -
  have first: "\<exists>x w1 w1'. get env s u a (world st) = (x, w1)
                 \<and> get env s' u a (world st') = (x, w1')
                 \<and> \<alpha> w1 (ident s) = after u a h0 \<and> \<alpha> w1' (ident s') = after u a h0
                 \<and> (\<forall>i. i \<noteq> ident s \<longrightarrow> \<alpha> w1 i = \<alpha> (world st) i)" for u a
    using ans [OF v(1), of u a "world st"] ans [OF v(2), of u a "world st'"]
          own [OF v(1), of u a "world st"] own [OF v(2), of u a "world st'"]
          oth [OF v(1), of _ u a "world st"] fr
    by (cases "get env s u a (world st)"; cases "get env s' u a (world st')") simp
  have second: "\<exists>y w2 w2'. get env s u2 a2 w1 = (y, w2) \<and> get env s' u2 a2 w1' = (y, w2')
                 \<and> (\<forall>i. i \<noteq> ident s \<longrightarrow> \<alpha> w2 i = \<alpha> w1 i)"
    if "\<alpha> w1 (ident s) = h1" "\<alpha> w1' (ident s') = h1" for u2 a2 w1 w1' h1
    using ans [OF v(1), of u2 a2 w1] ans [OF v(2), of u2 a2 w1'] oth [OF v(1), of _ u2 a2 w1] that
    by (cases "get env s u2 a2 w1"; cases "get env s' u2 a2 w1'") simp
  have live: "fst (test_liveness env s st) = fst (test_liveness env s' st')
      \<and> (i \<noteq> ident s \<longrightarrow> \<alpha> (world (snd (test_liveness env s st))) i = \<alpha> (world st) i)"
    using first [of HTTPS_WWW_URL True]
    by (auto simp: test_liveness_def session_get_def explain_def split: sum.splits)
  have http: "fst (test_http_to_https_redirect env s st)
        = fst (test_http_to_https_redirect env s' st')
      \<and> (i \<noteq> ident s \<longrightarrow>
           \<alpha> (world (snd (test_http_to_https_redirect env s st))) i = \<alpha> (world st) i)"
    using first [of HTTP_WWW_URL False]
    by (auto simp: test_http_to_https_redirect_def session_get_def explain_def print_def
             split: sum.splits option.splits)
  have bare: "fst (test_non_www_to_www_redirect env s st)
        = fst (test_non_www_to_www_redirect env s' st')
      \<and> (i \<noteq> ident s \<longrightarrow>
           \<alpha> (world (snd (test_non_www_to_www_redirect env s st))) i = \<alpha> (world st) i)"
    using first [of HTTPS_NON_WWW_URL False]
    by (auto simp: test_non_www_to_www_redirect_def session_get_def explain_def print_def
             split: sum.splits option.splits)
  have hsts: "fst (test_hsts_header env s st) = fst (test_hsts_header env s' st')
      \<and> (i \<noteq> ident s \<longrightarrow> \<alpha> (world (snd (test_hsts_header env s st))) i = \<alpha> (world st) i)"
  proof -
    obtain x w1 w1' where g1: "get env s HTTP_WWW_URL False (world st) = (x, w1)"
        "get env s' HTTP_WWW_URL False (world st') = (x, w1')"
        "\<alpha> w1 (ident s) = after HTTP_WWW_URL False h0"
        "\<alpha> w1' (ident s') = after HTTP_WWW_URL False h0"
        "\<forall>i. i \<noteq> ident s \<longrightarrow> \<alpha> w1 i = \<alpha> (world st) i"
      using first [of HTTP_WWW_URL False] by blast
    obtain y w2 w2' where g2: "get env s HTTPS_WWW_URL True w1 = (y, w2)"
        "get env s' HTTPS_WWW_URL True w1' = (y, w2')"
        "\<forall>i. i \<noteq> ident s \<longrightarrow> \<alpha> w2 i = \<alpha> w1 i"
      using second [OF g1(3) g1(4), of HTTPS_WWW_URL True] by blast
    show ?thesis
      by (cases x; cases y)
         (simp_all add: test_hsts_header_def session_get_def explain_def print_def
            g1(1,2,5) g2 split: option.splits)
  qed
  show "fst (check_test c env s st) = fst (check_test c env s' st')"
    using live http bare hsts by (cases c) simp_all
  show "i \<noteq> ident s \<Longrightarrow> \<alpha> (world (snd (check_test c env s st))) i = \<alpha> (world st) i"
    using live http bare hsts by (cases c) simp_all
qed

lemma fresh_sessions_run:
  assumes ans: "\<And>s u a w. verify s \<Longrightarrow> fst (get env s u a w) = answer u a (\<alpha> w (ident s))"
      and own: "\<And>s u a w. verify s \<Longrightarrow>
                  \<alpha> (snd (get env s u a w)) (ident s) = after u a (\<alpha> w (ident s))"
      and oth: "\<And>s u a w i. verify s \<Longrightarrow> i \<noteq> ident s \<Longrightarrow>
                  \<alpha> (snd (get env s u a w)) i = \<alpha> w i"
      and fr: "\<And>i. sessions_created st \<le> i \<Longrightarrow> \<alpha> (world st) i = h0"
      and fr': "\<And>i. sessions_created st' \<le> i \<Longrightarrow> \<alpha> (world st') i = h0"
  shows "fst (run_tests env (map check_test cs) st)
           = map (\<lambda>c. fst (run_test env (check_test c) st')) cs
       \<and> (\<forall>i. sessions_created (snd (run_tests env (map check_test cs) st)) \<le> i
            \<longrightarrow> \<alpha> (world (snd (run_tests env (map check_test cs) st))) i = h0)"
  using fr
proof (induction cs arbitrary: st)
  case Nil
  then show ?case by simp
next
  case (Cons c cs)
  let ?s = "\<lparr>ident = sessions_created st, verify = True\<rparr>"
  let ?st1 = "st\<lparr>sessions_created := Suc (sessions_created st)\<rparr>"
  let ?s' = "\<lparr>ident = sessions_created st', verify = True\<rparr>"
  let ?st1' = "st'\<lparr>sessions_created := Suc (sessions_created st')\<rparr>"
  have a: "\<alpha> (world ?st1) (ident ?s) = h0" "\<alpha> (world ?st1') (ident ?s') = h0"
    using Cons.prems [of "sessions_created st"] fr' [of "sessions_created st'"] by simp_all
  note one = fresh_session_outcome [where \<alpha> = \<alpha> and c = c, OF ans own oth _ _ a]
  obtain r st2 where r: "run_test env (check_test c) st = (r, st2)"
    by (cases "run_test env (check_test c) st")
  have same: "r = fst (run_test env (check_test c) st')"
    using one(1) r by (simp add: run_test_unfold)
  have count: "sessions_created st2 = Suc (sessions_created st)"
    using r checks_keep_sessions_created [of c env ?s ?st1] by (simp add: run_test_unfold)
  have "\<alpha> (world st2) i = h0" if "sessions_created st2 \<le> i" for i
  proof -
    have "i \<noteq> ident ?s" "sessions_created st \<le> i"
      using that count by simp_all
    then show ?thesis
      using one(2) [of i] r Cons.prems [of i] by (simp add: run_test_unfold)
  qed
  from Cons.IH [OF this] show ?case
    by (cases "run_tests env (map check_test cs) st2") (simp add: r same)
qed


lemma limited_get:
  "fst (get limited s u a w) = served (w (ident s)) u"
  "snd (get limited s u a w) = w(ident s := w (ident s) @ [u])"
  by (simp_all add: limited_def)

text \<open>
  C8: the outcomes of a run are a function of the responses received, and of nothing
  else on the client. Replaying the results of a run's exchanges to the same checks, from
  any client state and with any sessions, gives the same outcomes; so two runs that
  receive the same sequence of responses, such as a first run and a second one after it,
  have identical outcomes for every check. No check leaves behind client state that a
  later check or a later run depends on: against a server whose answers depend only on
  the request and on the asking session's own past, each check of a run, in whatever
  order the checks are run, has the outcome it has when run alone, and a run that follows
  another run has the outcomes of a first run.
\<close>

theorem outcomes_depend_on_responses_only:
  "(world st_r = map result (exchanges env cs st) \<longrightarrow>
      fst (run_tests (replay (check_bracketed env)) (map check_test cs) st_r)
        = fst (run_tests env (map check_test cs) st))
 \<and> (map result (exchanges env cs st) = map result (exchanges env' cs st')
      \<and> check_bracketed env = check_bracketed env' \<longrightarrow>
      fst (run_tests env (map check_test cs) st) = fst (run_tests env' (map check_test cs) st'))
 \<and> ((\<forall>s u a w. verify s \<longrightarrow> fst (get env s u a w) = answer u a (\<alpha> w (ident s)))
      \<and> (\<forall>s u a w. verify s \<longrightarrow>
             \<alpha> (snd (get env s u a w)) (ident s) = after u a (\<alpha> w (ident s)))
      \<and> (\<forall>s u a w i. verify s \<and> i \<noteq> ident s \<longrightarrow> \<alpha> (snd (get env s u a w)) i = \<alpha> w i)
      \<and> (\<forall>i. sessions_created st \<le> i \<longrightarrow> \<alpha> (world st) i = h0)
      \<and> (\<forall>i. sessions_created st2 \<le> i \<longrightarrow> \<alpha> (world st2) i = h0) \<longrightarrow>
      fst (run_tests env (map check_test cs) st)
        = map (\<lambda>c. fst (run_test env (check_test c) st2)) cs
      \<and> fst (run_tests env (map check_test cs) (snd (run_tests env (map check_test cs2) st)))
        = fst (run_tests env (map check_test cs) st))"
proof -
  have replayed: "world st_r = map result (exchanges env cs st) \<longrightarrow>
      fst (run_tests (replay (check_bracketed env)) (map check_test cs) st_r)
        = fst (run_tests env (map check_test cs) st)"
    by (simp add: exchanges_replay)
  have same_responses: "map result (exchanges env cs st) = map result (exchanges env' cs st')
      \<and> check_bracketed env = check_bracketed env' \<longrightarrow>
      fst (run_tests env (map check_test cs) st) = fst (run_tests env' (map check_test cs) st')"
  proof
    assume same: "map result (exchanges env cs st) = map result (exchanges env' cs st')
                  \<and> check_bracketed env = check_bracketed env'"
    let ?script = "with_world st (map result (exchanges env cs st))"
    have "fst (run_tests (replay (check_bracketed env)) (map check_test cs) ?script)
            = fst (run_tests env (map check_test cs) st)"
      by (rule exchanges_replay) (simp add: world_with_world)
    moreover
    have "fst (run_tests (replay (check_bracketed env')) (map check_test cs) ?script)
            = fst (run_tests env' (map check_test cs) st')"
      by (rule exchanges_replay) (simp add: world_with_world same)
    ultimately show "fst (run_tests env (map check_test cs) st)
                       = fst (run_tests env' (map check_test cs) st')"
      using same by simp
  qed
  have fresh_sessions:
    "(\<forall>s u a w. verify s \<longrightarrow> fst (get env s u a w) = answer u a (\<alpha> w (ident s)))
      \<and> (\<forall>s u a w. verify s \<longrightarrow>
             \<alpha> (snd (get env s u a w)) (ident s) = after u a (\<alpha> w (ident s)))
      \<and> (\<forall>s u a w i. verify s \<and> i \<noteq> ident s \<longrightarrow> \<alpha> (snd (get env s u a w)) i = \<alpha> w i)
      \<and> (\<forall>i. sessions_created st \<le> i \<longrightarrow> \<alpha> (world st) i = h0)
      \<and> (\<forall>i. sessions_created st2 \<le> i \<longrightarrow> \<alpha> (world st2) i = h0) \<longrightarrow>
      fst (run_tests env (map check_test cs) st)
        = map (\<lambda>c. fst (run_test env (check_test c) st2)) cs
      \<and> fst (run_tests env (map check_test cs) (snd (run_tests env (map check_test cs2) st)))
        = fst (run_tests env (map check_test cs) st)"
  proof
    assume local:
      "(\<forall>s u a w. verify s \<longrightarrow> fst (get env s u a w) = answer u a (\<alpha> w (ident s)))
        \<and> (\<forall>s u a w. verify s \<longrightarrow>
               \<alpha> (snd (get env s u a w)) (ident s) = after u a (\<alpha> w (ident s)))
        \<and> (\<forall>s u a w i. verify s \<and> i \<noteq> ident s \<longrightarrow> \<alpha> (snd (get env s u a w)) i = \<alpha> w i)
        \<and> (\<forall>i. sessions_created st \<le> i \<longrightarrow> \<alpha> (world st) i = h0)
        \<and> (\<forall>i. sessions_created st2 \<le> i \<longrightarrow> \<alpha> (world st2) i = h0)"
    have a: "fst (run_tests env (map check_test cs) st)
               = map (\<lambda>c. fst (run_test env (check_test c) st2)) cs"
      by (rule fresh_sessions_run [where \<alpha> = \<alpha> and answer = answer and after = after
                and ?h0.0 = h0, THEN conjunct1])
         (use local in blast)+
    have later: "\<forall>i. sessions_created (snd (run_tests env (map check_test cs2) st)) \<le> i
                   \<longrightarrow> \<alpha> (world (snd (run_tests env (map check_test cs2) st))) i = h0"
      by (rule fresh_sessions_run [where \<alpha> = \<alpha> and answer = answer and after = after
                and ?h0.0 = h0 and st' = st2, THEN conjunct2])
         (use local in blast)+
    have "fst (run_tests env (map check_test cs) (snd (run_tests env (map check_test cs2) st)))
            = map (\<lambda>c. fst (run_test env (check_test c) st2)) cs"
      by (rule fresh_sessions_run [where \<alpha> = \<alpha> and answer = answer and after = after
                and ?h0.0 = h0, THEN conjunct1])
         (use local later in blast)+
    with a show "fst (run_tests env (map check_test cs) st)
          = map (\<lambda>c. fst (run_test env (check_test c) st2)) cs
        \<and> fst (run_tests env (map check_test cs) (snd (run_tests env (map check_test cs2) st)))
          = fst (run_tests env (map check_test cs) st)"
      by simp
  qed
  show ?thesis
    using replayed same_responses fresh_sessions by (intro conjI)
qed

theorem outcomes_depend_on_responses_only_witness:
  "fst (run_tests (replay (check_bracketed kouidri)) (map check_test all_checks)
          (with_world no_requests_yet (map result (exchanges kouidri all_checks st0))))
     = fst (run_tests kouidri (map check_test all_checks) st0)
   \<and> fst (run_tests kouidri (map check_test all_checks)
            (snd (run_tests kouidri (map check_test all_checks) st0)))
     = fst (run_tests kouidri (map check_test all_checks) st0)
   \<and> fst (run_tests limited (map check_test (rev all_checks)) no_requests_yet)
     = map (\<lambda>c. fst (run_test limited (check_test c) no_requests_yet)) (rev all_checks)
   \<and> fst (run_tests limited (map check_test all_checks)
            (snd (run_tests limited (map check_test all_checks) no_requests_yet)))
     = [Inr (), Inr (), Inr (), Inr ()]"
proof -
  have first_run: "fst (run_tests limited (map check_test all_checks) no_requests_yet)
                     = [Inr (), Inr (), Inr (), Inr ()]"
    by code_simp
  have "fst (run_tests (replay (check_bracketed kouidri)) (map check_test all_checks)
          (with_world no_requests_yet (map result (exchanges kouidri all_checks st0))))
     = fst (run_tests kouidri (map check_test all_checks) st0)"
    using outcomes_depend_on_responses_only
            [where env = kouidri and cs = all_checks and st = st0
               and st_r = "with_world no_requests_yet
                             (map result (exchanges kouidri all_checks st0))",
             THEN conjunct1]
    by (simp add: world_with_world)
  moreover
  have "fst (run_tests kouidri (map check_test all_checks)
            (snd (run_tests kouidri (map check_test all_checks) st0)))
     = fst (run_tests kouidri (map check_test all_checks) st0)"
    using outcomes_depend_on_responses_only
            [where env = kouidri and env' = kouidri and cs = all_checks
               and st = "snd (run_tests kouidri (map check_test all_checks) st0)"
               and st' = st0, THEN conjunct2, THEN conjunct1]
    by (simp add: kouidri_results)
  moreover
  have fresh: "world no_requests_yet i = []" "sessions_created no_requests_yet = 0" for i
    by (simp_all add: no_requests_yet_def)
  have "fst (run_tests limited (map check_test (rev all_checks)) no_requests_yet)
     = map (\<lambda>c. fst (run_test limited (check_test c) no_requests_yet)) (rev all_checks)"
    using outcomes_depend_on_responses_only
            [where env = limited and cs = "rev all_checks" and st = no_requests_yet
               and ?st2.0 = no_requests_yet and \<alpha> = "\<lambda>w i. w i" and ?h0.0 = "[]"
               and after = "\<lambda>u a h. h @ [u]" and answer = "\<lambda>u a h. served h u",
             THEN conjunct2, THEN conjunct2]
    by (simp add: limited_get fresh)
  moreover
  have "fst (run_tests limited (map check_test all_checks)
            (snd (run_tests limited (map check_test all_checks) no_requests_yet)))
     = [Inr (), Inr (), Inr (), Inr ()]"
    using outcomes_depend_on_responses_only
            [where env = limited and cs = all_checks and ?cs2.0 = all_checks
               and st = no_requests_yet
               and ?st2.0 = no_requests_yet and \<alpha> = "\<lambda>w i. w i" and ?h0.0 = "[]"
               and after = "\<lambda>u a h. h @ [u]" and answer = "\<lambda>u a h. served h u",
             THEN conjunct2, THEN conjunct2]
    by (simp add: limited_get fresh first_run)
  ultimately show ?thesis
    by (intro conjI)
qed

end
